theory Spec2Isabelle
  imports Complex_Main "HOL-Library.Sublist"
begin

section \<open>Token lifecycle manager (src/core/auth/token-manager.ts)\<close>

text \<open>
  The class has three private fields: \<^verbatim>\<open>token?: string\<close>, \<^verbatim>\<open>expiresAt?: number\<close>
  and \<^verbatim>\<open>refreshing?: Promise<string>\<close>. An absent field is \<open>None\<close>. Clock
  readings (\<^verbatim>\<open>Date.now()\<close>) are integers in milliseconds. The promise held in
  \<^verbatim>\<open>refreshing\<close> is shared by reference between callers, so it is a handle into
  a table of refresh operations kept beside the manager.
\<close>

record token_manager =
  token :: "string option"
  expiresAt :: "int option"
  refreshing :: "nat option"

text \<open>What the injected \<^verbatim>\<open>fetchToken\<close> resolves to.\<close>

record fetch_result =
  access_token :: string
  expires_in :: int

text \<open>A promise of a token: pending, or settled as fulfilled or rejected.\<close>

datatype 'e outcome = Fulfilled string | Rejected 'e

datatype 'e promise = Pending | Settled "'e outcome"

text \<open>
  One \<^verbatim>\<open>getToken()\<close> invocation, as seen from outside:
  \<^item> \<open>Returned t\<close>: line 11, the cached token was returned;
  \<^item> \<open>Joined p\<close>: line 15, the invocation returned the promise \<open>p\<close> found in
    \<^verbatim>\<open>this.refreshing\<close>, so it settles as \<open>p\<close> does;
  \<^item> \<open>Awaiting p\<close>: lines 18-20, the invocation called \<^verbatim>\<open>refresh()\<close>, stored its
    promise \<open>p\<close> and is suspended at \<^verbatim>\<open>await this.refreshing\<close>;
  \<^item> \<open>Finished r\<close>: the suspended invocation was resumed and ended with \<open>r\<close>.
\<close>

datatype 'e caller = Returned string | Joined nat | Awaiting nat | Finished "'e outcome"

text \<open>
  The manager together with every promise \<^verbatim>\<open>refresh()\<close> has created (each
  \<^verbatim>\<open>refresh()\<close> call invokes \<^verbatim>\<open>fetchToken\<close> exactly once, synchronously, before
  its first suspension) and every \<^verbatim>\<open>getToken()\<close> invocation made so far.
\<close>

record 'e world =
  mgr :: token_manager
  ops :: "'e promise list"
  callers :: "'e caller list"

text \<open>
  Line 10: \<^verbatim>\<open>this.token && Date.now() < this.expiresAt!\<close>. A string is truthy
  when it is not empty; a comparison with \<^verbatim>\<open>undefined\<close> is false.
\<close>

definition cache_valid :: "token_manager \<Rightarrow> int \<Rightarrow> bool" where
  "cache_valid m now =
     (case token m of
        None \<Rightarrow> False
      | Some t \<Rightarrow> t \<noteq> [] \<and> (case expiresAt m of None \<Rightarrow> False | Some e \<Rightarrow> now < e))"

text \<open>
  The synchronous prefix of \<^verbatim>\<open>getToken()\<close> (lines 10-18): which of the three
  paths the invocation takes at clock reading \<open>now\<close>.
\<close>

datatype path = Hit string | Join nat | Start

definition getToken_path :: "token_manager \<Rightarrow> int \<Rightarrow> path" where
  "getToken_path m now =
     (if cache_valid m now then Hit (case token m of Some t \<Rightarrow> t | None \<Rightarrow> [])
      else case refreshing m of Some p \<Rightarrow> Join p | None \<Rightarrow> Start)"

text \<open>
  \<^verbatim>\<open>getToken()\<close> up to its first suspension. On the third path \<^verbatim>\<open>refresh()\<close>
  runs up to \<^verbatim>\<open>await this.fetchToken()\<close>: a new pending promise is appended
  (one more fetch is outstanding) and its handle is stored in \<^verbatim>\<open>refreshing\<close>.
\<close>

definition getToken_call :: "'e world \<Rightarrow> int \<Rightarrow> 'e world" where
  "getToken_call w now =
     (case getToken_path (mgr w) now of
        Hit t \<Rightarrow> w\<lparr>callers := callers w @ [Returned t]\<rparr>
      | Join p \<Rightarrow> w\<lparr>callers := callers w @ [Joined p]\<rparr>
      | Start \<Rightarrow>
          w\<lparr>mgr := (mgr w)\<lparr>refreshing := Some (length (ops w))\<rparr>,
            ops := ops w @ [Pending],
            callers := callers w @ [Awaiting (length (ops w))]\<rparr>)"

text \<open>
  \<^verbatim>\<open>refresh()\<close> after its suspension (lines 27-33), resumed when the fetch of
  operation \<open>p\<close> settles with \<open>r\<close>, at clock reading \<open>now\<close>. A fulfilled fetch
  stores the token and the expiry and fulfils the promise; a rejected fetch
  rejects the promise and stores nothing. The settlement of the fetch and this
  resumption are one event: in between no field of the manager changes, so an
  invocation made in between behaves as one made before the settlement.
\<close>

definition refresh_resume :: "'e world \<Rightarrow> nat \<Rightarrow> 'e + fetch_result \<Rightarrow> int \<Rightarrow> 'e world" where
  "refresh_resume w p r now =
     (if p < length (ops w) \<and> ops w ! p = Pending then
        (case r of
           Inr res \<Rightarrow>
             w\<lparr>mgr := (mgr w)\<lparr>token := Some (access_token res),
                                expiresAt := Some (now + expires_in res * 1000 - 30000)\<rparr>,
               ops := (ops w)[p := Settled (Fulfilled (access_token res))]\<rparr>
         | Inl e \<Rightarrow> w\<lparr>ops := (ops w)[p := Settled (Rejected e)]\<rparr>)
      else w)"

text \<open>
  \<^verbatim>\<open>getToken()\<close> after \<^verbatim>\<open>await this.refreshing\<close> (lines 20-23), for the
  invocation number \<open>c\<close>. When the awaited promise is fulfilled, line 21 clears
  \<^verbatim>\<open>refreshing\<close> and the token is returned. When it is rejected, the
  \<^verbatim>\<open>await\<close> throws: the invocation ends with the error and line 21 is not
  reached.
\<close>

definition getToken_resume :: "'e world \<Rightarrow> nat \<Rightarrow> 'e world" where
  "getToken_resume w c =
     (if c < length (callers w) then
        (case callers w ! c of
           Awaiting p \<Rightarrow>
             (if p < length (ops w) then
                (case ops w ! p of
                   Pending \<Rightarrow> w
                 | Settled (Fulfilled t) \<Rightarrow>
                     w\<lparr>mgr := (mgr w)\<lparr>refreshing := None\<rparr>,
                       callers := (callers w)[c := Finished (Fulfilled t)]\<rparr>
                 | Settled (Rejected e) \<Rightarrow>
                     w\<lparr>callers := (callers w)[c := Finished (Rejected e)]\<rparr>)
              else w)
         | _ \<Rightarrow> w)
      else w)"

text \<open>
  The event loop: invocations of \<^verbatim>\<open>getToken()\<close>, settlements of fetches and
  resumptions of suspended invocations, in any order. An event that is not
  enabled (a fetch that is not outstanding, an invocation that is not
  suspended on a settled promise) leaves the world as it is.
\<close>

datatype 'e event =
    Call int
  | FetchDone nat "'e + fetch_result" int
  | Resume nat

fun step :: "'e world \<Rightarrow> 'e event \<Rightarrow> 'e world" where
  "step w (Call now) = getToken_call w now"
| "step w (FetchDone p r now) = refresh_resume w p r now"
| "step w (Resume c) = getToken_resume w c"

definition exec :: "'e world \<Rightarrow> 'e event list \<Rightarrow> 'e world" where
  "exec w es = foldl step w es"

text \<open>A manager right after construction.\<close>

definition cold :: "'e world" where
  "cold = \<lparr>mgr = \<lparr>token = None, expiresAt = None, refreshing = None\<rparr>, ops = [], callers = []\<rparr>"

text \<open>The number of \<^verbatim>\<open>fetchToken\<close> calls made, and of those not yet settled.\<close>

definition fetches :: "'e world \<Rightarrow> nat" where
  "fetches w = length (ops w)"

definition outstanding :: "'e world \<Rightarrow> nat" where
  "outstanding w = length (filter (\<lambda>q. q = Pending) (ops w))"

text \<open>What an invocation has resolved to, if it has.\<close>

definition resolved :: "'e world \<Rightarrow> 'e caller \<Rightarrow> 'e outcome option" where
  "resolved w c =
     (case c of
        Returned t \<Rightarrow> Some (Fulfilled t)
      | Joined p \<Rightarrow>
          (if p < length (ops w) then
             (case ops w ! p of Pending \<Rightarrow> None | Settled r \<Rightarrow> Some r)
           else None)
      | Awaiting p \<Rightarrow> None
      | Finished r \<Rightarrow> Some r)"

text \<open>
  Invariants of the event loop, used below: at most one invocation is suspended
  at line 20, and both it and every unsettled fetch belong to the promise held
  in \<^verbatim>\<open>refreshing\<close>.
\<close>

fun is_awaiting :: "'e caller \<Rightarrow> bool" where
  "is_awaiting (Awaiting p) = True"
| "is_awaiting c = False"

definition starters_ok :: "'e world \<Rightarrow> bool" where
  "starters_ok w =
     (length (filter is_awaiting (callers w)) \<le> 1 \<and>
      (\<forall>q. Awaiting q \<in> set (callers w) \<longrightarrow> refreshing (mgr w) = Some q))"

definition pending_ok :: "'e world \<Rightarrow> bool" where
  "pending_ok w = (\<forall>q<length (ops w). ops w ! q = Pending \<longrightarrow> refreshing (mgr w) = Some q)"

text \<open>
  An event after which the cache cannot be valid at clock reading \<open>now\<close>: a
  fetch that succeeds does so with \<open>expires_in \<le> 30\<close>, not later than \<open>now\<close>.
\<close>

fun short_lived :: "int \<Rightarrow> 'e event \<Rightarrow> bool" where
  "short_lived now (FetchDone p (Inr res) t) = (expires_in res \<le> 30 \<and> t \<le> now)"
| "short_lived now ev = True"

text \<open>
  The invariant kept by such events once the refresh \<open>p\<close>, started by the
  invocation \<open>c\<close> when \<open>n\<close> fetches had been made, has stored a token
  \<open>tok\<close> that is not valid at \<open>now\<close>: \<^verbatim>\<open>refreshing\<close> is empty, or still holds
  \<open>p\<close> while \<open>c\<close> has not been resumed, or holds a refresh started later.
\<close>

definition short_store_inv ::
  "nat \<Rightarrow> nat \<Rightarrow> nat \<Rightarrow> string \<Rightarrow> int \<Rightarrow> 'e world \<Rightarrow> bool" where
  "short_store_inv n p c tok now v =
     (n \<le> length (ops v) \<and> p < n \<and> c < length (callers v) \<and>
      ops v ! p = Settled (Fulfilled tok) \<and>
      \<not> cache_valid (mgr v) now \<and>
      (case refreshing (mgr v) of
         None \<Rightarrow> True
       | Some q \<Rightarrow> (q = p \<and> callers v ! c = Awaiting p) \<or> (n \<le> q \<and> q < length (ops v))))"

section \<open>JavaScript values\<close>

text \<open>
  A string is the list of the bytes of its UTF-8 encoding; the characters the
  code looks for (digits, signs, the words it searches in messages) are ASCII.

  A JavaScript number is a double, or \<^verbatim>\<open>NaN\<close>, or an infinity. \<open>Num x\<close> stands
  for the double nearest to the real \<open>x\<close>: the rounding inside the range of
  doubles is not computed. \<open>Number_value\<close> is the conversion of a real to a
  number as far as it changes the kind of the result: a magnitude of
  \<open>2^1024 - 2^970\<close> or more rounds to an infinity, a magnitude of \<open>2^-1075\<close>
  or less rounds to zero.
\<close>

datatype js_number = Num real | NaN | PosInf | NegInf

definition Number_value :: "real \<Rightarrow> js_number" where
  "Number_value x =
     (if 2 ^ 1024 - 2 ^ 970 \<le> \<bar>x\<bar> then (if 0 < x then PosInf else NegInf)
      else if \<bar>x\<bar> \<le> 1 / 2 ^ 1075 then Num 0
      else Num x)"

fun negate :: "js_number \<Rightarrow> js_number" where
  "negate (Num x) = Num (- x)"
| "negate NaN = NaN"
| "negate PosInf = NegInf"
| "negate NegInf = PosInf"

text \<open>
  The carrier's reply reaches the mapper as \<^verbatim>\<open>any\<close>: a parsed JSON document. A
  property that is not there reads as \<^verbatim>\<open>undefined\<close>, which is \<open>None\<close> of
  \<open>json option\<close>. An object is the list of its own properties, each key
  once. A number of the document is a double or, for a literal beyond the
  range, an infinity.
\<close>

datatype json =
    JNull
  | JBool bool
  | JNum js_number
  | JStr string
  | JArr "json list"
  | JObj "(string \<times> json) list"

text \<open>Truthiness, as tested by \<^verbatim>\<open>!x\<close>, \<^verbatim>\<open>x || y\<close>, \<^verbatim>\<open>x && y\<close> and \<^verbatim>\<open>x ? y : z\<close>.\<close>

fun truthy :: "json option \<Rightarrow> bool" where
  "truthy None = False"
| "truthy (Some JNull) = False"
| "truthy (Some (JBool b)) = b"
| "truthy (Some (JNum n)) = (n \<noteq> Num 0 \<and> n \<noteq> NaN)"
| "truthy (Some (JStr s)) = (s \<noteq> [])"
| "truthy (Some (JArr xs)) = True"
| "truthy (Some (JObj kvs)) = True"

text \<open>\<^verbatim>\<open>a || b\<close>.\<close>

definition or_else :: "json option \<Rightarrow> json option \<Rightarrow> json option" where
  "or_else a b = (if truthy a then a else b)"

text \<open>
  Property access \<^verbatim>\<open>v?.k\<close>, and \<^verbatim>\<open>v.k\<close> where \<open>v\<close> is known not to be
  \<^verbatim>\<open>null\<close> or \<^verbatim>\<open>undefined\<close>. None of the keys the mapper reads is a property
  of \<^verbatim>\<open>Object.prototype\<close>, of an array, a string, a number or a boolean, so
  only an object's own properties answer.
\<close>

fun getp :: "json option \<Rightarrow> string \<Rightarrow> json option" where
  "getp (Some (JObj kvs)) k = map_of kvs k"
| "getp v k = None"

text \<open>
  Multiplication of a number by a positive factor, exact on \<open>Num\<close>; line 93 of
  the rate operation uses it on what \<^verbatim>\<open>parseInt\<close> returned.
\<close>

fun num_times :: "js_number \<Rightarrow> real \<Rightarrow> js_number" where
  "num_times (Num x) k = Num (x * k)"
| "num_times NaN k = NaN"
| "num_times PosInf k = PosInf"
| "num_times NegInf k = NegInf"

definition is_digit :: "char \<Rightarrow> bool" where
  "is_digit c = (c \<in> set ''0123456789'')"

definition digit_val :: "char \<Rightarrow> nat" where
  "digit_val c = of_char c - 48"

definition digits_val :: "string \<Rightarrow> nat" where
  "digits_val s = foldl (\<lambda>n c. 10 * n + digit_val c) 0 s"

text \<open>
  The white space and line terminators that \<^verbatim>\<open>parseFloat\<close> and \<^verbatim>\<open>parseInt\<close>
  skip at the start of a string, each as its UTF-8 bytes: U+0009 to U+000D,
  U+0020, U+00A0, U+1680, U+2000 to U+200A, U+2028, U+2029, U+202F, U+205F,
  U+3000 and U+FEFF. \<open>space_len s\<close> is the number of bytes of the one that
  \<open>s\<close> starts with, 0 when it starts with none; \<open>trim_start\<close> removes them all.
\<close>

definition white_space :: "string list" where
  "white_space =
     [[CHR 0x09], [CHR 0x0A], [CHR 0x0B], [CHR 0x0C], [CHR 0x0D], [CHR 0x20],
      [CHR 0xC2, CHR 0xA0],
      [CHR 0xE1, CHR 0x9A, CHR 0x80],
      [CHR 0xE2, CHR 0x80, CHR 0x80], [CHR 0xE2, CHR 0x80, CHR 0x81],
      [CHR 0xE2, CHR 0x80, CHR 0x82], [CHR 0xE2, CHR 0x80, CHR 0x83],
      [CHR 0xE2, CHR 0x80, CHR 0x84], [CHR 0xE2, CHR 0x80, CHR 0x85],
      [CHR 0xE2, CHR 0x80, CHR 0x86], [CHR 0xE2, CHR 0x80, CHR 0x87],
      [CHR 0xE2, CHR 0x80, CHR 0x88], [CHR 0xE2, CHR 0x80, CHR 0x89],
      [CHR 0xE2, CHR 0x80, CHR 0x8A],
      [CHR 0xE2, CHR 0x80, CHR 0xA8], [CHR 0xE2, CHR 0x80, CHR 0xA9],
      [CHR 0xE2, CHR 0x80, CHR 0xAF],
      [CHR 0xE2, CHR 0x81, CHR 0x9F],
      [CHR 0xE3, CHR 0x80, CHR 0x80],
      [CHR 0xEF, CHR 0xBB, CHR 0xBF]]"

definition space_len :: "string \<Rightarrow> nat" where
  "space_len s = (case find (\<lambda>p. prefix p s) white_space of None \<Rightarrow> 0 | Some p \<Rightarrow> length p)"

fun trim_start :: "string \<Rightarrow> string" where
  "trim_start [] = []"
| "trim_start (c # cs) =
     (if space_len (c # cs) = 0 then c # cs
      else trim_start (drop (space_len (c # cs) - 1) cs))"

definition pow10 :: "int \<Rightarrow> real" where
  "pow10 k = (if 0 \<le> k then 10 ^ nat k else 1 / 10 ^ nat (- k))"

text \<open>
  The built-in \<^verbatim>\<open>parseFloat\<close> on a string: leading white space is skipped and
  the longest prefix that is a decimal literal (sign, digits, fraction,
  exponent, or \<^verbatim>\<open>Infinity\<close>) is read; without one the result is \<^verbatim>\<open>NaN\<close>. The
  sign is applied to the number the unsigned literal converts to.
\<close>

definition exponent :: "string \<Rightarrow> int" where
  "exponent r =
     (case r of
        [] \<Rightarrow> 0
      | c # t \<Rightarrow>
          if c = CHR ''e'' \<or> c = CHR ''E'' then
            (case t of
               [] \<Rightarrow> 0
             | d # u \<Rightarrow>
                 if d = CHR ''-'' then - int (digits_val (takeWhile is_digit u))
                 else if d = CHR ''+'' then int (digits_val (takeWhile is_digit u))
                 else int (digits_val (takeWhile is_digit t)))
          else 0)"

definition parse_unsigned :: "string \<Rightarrow> js_number" where
  "parse_unsigned s =
     (let ip = takeWhile is_digit s;
          r = dropWhile is_digit s;
          dot = (case r of [] \<Rightarrow> False | c # t \<Rightarrow> c = CHR ''.'');
          fp = (if dot then takeWhile is_digit (tl r) else []);
          r' = (if dot then dropWhile is_digit (tl r) else r)
      in if ip = [] \<and> fp = [] then (if prefix ''Infinity'' s then PosInf else NaN)
         else Number_value
                (real (digits_val (ip @ fp)) / 10 ^ length fp * pow10 (exponent r')))"

definition parseFloat :: "string \<Rightarrow> js_number" where
  "parseFloat s =
     (case trim_start s of
        [] \<Rightarrow> NaN
      | c # r \<Rightarrow>
          if c = CHR ''-'' then negate (parse_unsigned r)
          else if c = CHR ''+'' then parse_unsigned r
          else parse_unsigned (c # r))"

text \<open>
  The built-in \<^verbatim>\<open>parseInt\<close> with no radix: white space, a sign, then
  hexadecimal digits after \<^verbatim>\<open>0x\<close> or decimal digits otherwise. The value is
  the exact whole number read: its rounding to a double is not computed, at
  any size.
\<close>

definition hex_val :: "char \<Rightarrow> nat option" where
  "hex_val c =
     (if is_digit c then Some (digit_val c)
      else if c \<in> set ''abcdef'' then Some (of_char c - 87)
      else if c \<in> set ''ABCDEF'' then Some (of_char c - 55)
      else None)"

definition parse_radix :: "string \<Rightarrow> js_number" where
  "parse_radix s =
     (if prefix ''0x'' s \<or> prefix ''0X'' s then
        (let ds = takeWhile (\<lambda>c. hex_val c \<noteq> None) (drop 2 s)
         in if ds = [] then NaN
            else Num (real (foldl (\<lambda>n c. 16 * n + (case hex_val c of Some d \<Rightarrow> d | None \<Rightarrow> 0)) 0 ds)))
      else
        (let ds = takeWhile is_digit s
         in if ds = [] then NaN else Num (real (digits_val ds))))"

definition parseInt :: "string \<Rightarrow> js_number" where
  "parseInt s =
     (case trim_start s of
        [] \<Rightarrow> NaN
      | c # r \<Rightarrow>
          if c = CHR ''-'' then negate (parse_radix r)
          else if c = CHR ''+'' then parse_radix r
          else parse_radix (c # r))"

text \<open>\<^verbatim>\<open>String.prototype.includes\<close>.\<close>

fun str_includes :: "string \<Rightarrow> string \<Rightarrow> bool" where
  "str_includes [] sub = (sub = [])"
| "str_includes (c # cs) sub = (prefix sub (c # cs) \<or> str_includes cs sub)"

text \<open>\<^verbatim>\<open>String(n)\<close> and template interpolation, for a whole number.\<close>

fun string_of_nat :: "nat \<Rightarrow> string" where
  "string_of_nat n =
     (if n < 10 then [''0123456789'' ! n]
      else string_of_nat (n div 10) @ [''0123456789'' ! (n mod 10)])"

definition String_int :: "int \<Rightarrow> string" where
  "String_int i = (if i < 0 then CHR ''-'' # string_of_nat (nat (- i)) else string_of_nat (nat i))"

section \<open>Domain model (src/domain/models/rate.ts)\<close>

text \<open>
  The interfaces \<^verbatim>\<open>Address\<close>, \<^verbatim>\<open>Package\<close>, \<^verbatim>\<open>RateRequest\<close> and \<^verbatim>\<open>RateQuote\<close>.
  The field \<^verbatim>\<open>length\<close> of a package is \<open>length_dim\<close> here. The quote's fields
  hold what \<^verbatim>\<open>parseUpsResponse\<close> puts there at run time: values of the reply
  for the strings, results of \<^verbatim>\<open>parseFloat\<close> for the numbers.
\<close>

record address =
  name :: string
  addressLines :: "string list"
  city :: string
  state :: "string option"
  postalCode :: string
  countryCode :: string

datatype weight_unit = LBS | KGS

datatype dimension_unit = IN | CM

record package =
  weight :: real
  weightUnit :: weight_unit
  length_dim :: real
  width :: real
  height :: real
  dimensionUnit :: dimension_unit

record rate_request =
  shipFrom :: address
  shipTo :: address
  packages :: "package list"

record rate_quote =
  carrier :: string
  serviceCode :: "json option"
  serviceName :: "json option"
  amount :: js_number
  currency :: "json option"
  baseCharge :: "js_number option"
  transportationCharge :: "js_number option"
  alerts :: "json list option"

section \<open>Request mapper (carriers/ups/mappers/rate.mapper, src/unnamed/part_004)\<close>

text \<open>The unit literals \<^verbatim>\<open>"LBS" | "KGS"\<close> and \<^verbatim>\<open>"IN" | "CM"\<close> as strings.\<close>

fun weight_code :: "weight_unit \<Rightarrow> string" where
  "weight_code LBS = ''LBS''"
| "weight_code KGS = ''KGS''"

fun dimension_code :: "dimension_unit \<Rightarrow> string" where
  "dimension_code IN = ''IN''"
| "dimension_code CM = ''CM''"

text \<open>
  The \<^verbatim>\<open>Address\<close> object literal, written three times in the source (lines
  117-123, 127-133, 137-143); \<^verbatim>\<open>state || ''\<close> gives the empty string for an
  absent or empty state.
\<close>

definition address_block :: "address \<Rightarrow> json" where
  "address_block a =
     JObj [(''AddressLine'', JArr (map JStr (addressLines a))),
           (''City'', JStr (city a)),
           (''StateProvinceCode'',
              JStr (case state a of None \<Rightarrow> '''' | Some s \<Rightarrow> if s \<noteq> [] then s else '''')),
           (''PostalCode'', JStr (postalCode a)),
           (''CountryCode'', JStr (countryCode a))]"

text \<open>
  One entry of \<^verbatim>\<open>request.packages.map(...)\<close> (lines 158-179). \<open>String\<close> is the
  built-in conversion of a number to a string, a parameter here.
\<close>

definition package_block :: "(real \<Rightarrow> string) \<Rightarrow> package \<Rightarrow> json" where
  "package_block String pkg =
     JObj [(''PackagingType'', JObj [(''Code'', JStr ''02''), (''Description'', JStr ''Packaging'')]),
           (''Dimensions'',
              JObj [(''UnitOfMeasurement'',
                       JObj [(''Code'', JStr (dimension_code (dimensionUnit pkg))),
                             (''Description'',
                                JStr (if dimension_code (dimensionUnit pkg) = ''IN''
                                      then ''Inches'' else ''Centimeters''))]),
                    (''Length'', JStr (String (length_dim pkg))),
                    (''Width'', JStr (String (width pkg))),
                    (''Height'', JStr (String (height pkg)))]),
           (''PackageWeight'',
              JObj [(''UnitOfMeasurement'',
                       JObj [(''Code'', JStr (weight_code (weightUnit pkg))),
                             (''Description'',
                                JStr (if weight_code (weightUnit pkg) = ''LBS''
                                      then ''Pounds'' else ''Kilograms''))]),
                    (''Weight'', JStr (String (weight pkg)))])]"

text \<open>
  \<^verbatim>\<open>mapToUpsRequest\<close> (lines 105-182). The call \<^verbatim>\<open>randomUUID()\<close> of line 110 reads
  the process's random source; what it returns in this invocation is the
  argument \<open>uuid\<close>.
\<close>

definition mapToUpsRequest :: "(real \<Rightarrow> string) \<Rightarrow> string \<Rightarrow> rate_request \<Rightarrow> string \<Rightarrow> json" where
  "mapToUpsRequest String uuid request shipperNumber =
     JObj [(''RateRequest'',
       JObj [(''Request'',
                JObj [(''TransactionReference'',
                         JObj [(''CustomerContext'', JStr ''RatingService''),
                               (''TransactionIdentifier'', JStr uuid)])]),
             (''Shipment'',
                JObj [(''Shipper'',
                         JObj [(''Name'', JStr (address.name (shipFrom request))),
                               (''ShipperNumber'', JStr shipperNumber),
                               (''Address'', address_block (shipFrom request))]),
                      (''ShipTo'',
                         JObj [(''Name'', JStr (address.name (shipTo request))),
                               (''Address'', address_block (shipTo request))]),
                      (''ShipFrom'',
                         JObj [(''Name'', JStr (address.name (shipFrom request))),
                               (''Address'', address_block (shipFrom request))]),
                      (''PaymentDetails'',
                         JObj [(''ShipmentCharge'',
                                  JObj [(''Type'', JStr ''01''),
                                        (''BillShipper'',
                                           JObj [(''AccountNumber'', JStr shipperNumber)])])]),
                      (''Service'', JObj [(''Code'', JStr ''03''), (''Description'', JStr ''Ground'')]),
                      (''NumOfPieces'', JStr (string_of_nat (length (packages request)))),
                      (''Package'', JArr (map (package_block String) (packages request)))])])]"

section \<open>Errors (domain/errors, src/unnamed/part_005)\<close>

text \<open>
  What \<^verbatim>\<open>execute\<close> catches is \<^verbatim>\<open>any\<close>. The catch block reads
  \<^verbatim>\<open>error.response\<close> (with \<^verbatim>\<open>status\<close>, \<^verbatim>\<open>data\<close>, \<^verbatim>\<open>headers\<close>),
  \<^verbatim>\<open>error.code\<close>, \<^verbatim>\<open>error.message\<close>, \<^verbatim>\<open>error.name\<close>, \<^verbatim>\<open>error.config\<close> and
  tests \<^verbatim>\<open>error instanceof SyntaxError\<close>; each may be absent. A thrown value is
  taken to be an object or a primitive other than \<^verbatim>\<open>null\<close> and \<^verbatim>\<open>undefined\<close>.
\<close>

record http_response =
  status :: "int option"
  data :: "json option"
  headers :: "(string \<times> string) list option"

record js_error =
  name :: "string option"
  message :: "string option"
  code :: "string option"
  response :: "http_response option"
  config :: "json option"
  syntax_error :: bool

text \<open>\<^verbatim>\<open>new Error(msg)\<close>, and the \<^verbatim>\<open>TypeError\<close> the runtime throws.\<close>

definition js_Error :: "string \<Rightarrow> js_error" where
  "js_Error msg =
     \<lparr>name = Some ''Error'', message = Some msg, code = None, response = None,
      config = None, syntax_error = False\<rparr>"

definition js_TypeError :: "string \<Rightarrow> js_error" where
  "js_TypeError msg =
     \<lparr>name = Some ''TypeError'', message = Some msg, code = None, response = None,
      config = None, syntax_error = False\<rparr>"

text \<open>
  The classes of \<^verbatim>\<open>domain/errors\<close>, each constructor with the arguments of the
  class's constructor in their order. A \<^verbatim>\<open>details\<close> object is the list of its
  properties; \<open>DStringOf e\<close> stands for \<^verbatim>\<open>String(e)\<close>, \<open>Stringified j\<close> for
  \<^verbatim>\<open>JSON.stringify(j)\<close>.
\<close>

datatype detail =
    DText "string option"
  | DData "json option"
  | DStatus int
  | DStringOf js_error

type_synonym details = "(string \<times> detail) list"

datatype raw_response = RawData json | Stringified json

datatype classified =
    AuthenticationError string details
  | ValidationError string details
  | TimeoutError string "int option" details
  | HttpServerError int string bool details
  | HttpClientError int string details
  | MalformedResponseError string "raw_response option" details
  | RateLimitError string "js_number option" details
  | NetworkError string js_error details

text \<open>
  What leaves \<^verbatim>\<open>execute\<close> by \<^verbatim>\<open>throw\<close>: an instance of one of the classes, or a
  raw error (the caught one thrown again, or a \<^verbatim>\<open>TypeError\<close> raised inside the
  catch block).
\<close>

datatype thrown = Classified classified | Raw js_error

section \<open>Response parser (carriers/ups/mappers/rate.mapper, src/unnamed/part_004)\<close>

text \<open>
  \<^verbatim>\<open>parseFloat\<close> on a value that is not a string first converts it to one,
  and that can throw. An object converts through its \<^verbatim>\<open>toString\<close>: the inherited
  one gives a string, but an own property of that name in a parsed document is
  never a function, and the conversion then throws a \<^verbatim>\<open>TypeError\<close>. An array
  converts every element (\<^verbatim>\<open>null\<close> to the empty string) and joins the results
  by commas, so it throws when an element does. Everything else converts.
\<close>

fun stringable :: "json \<Rightarrow> bool" where
  "stringable (JObj kvs) = (map_of kvs ''toString'' = None)"
| "stringable (JArr xs) = list_all stringable xs"
| "stringable v = True"

text \<open>
  What \<^verbatim>\<open>parseFloat\<close> reads from the string of a value that converts. A
  number's string reads back as the number. In an array's string no literal
  goes past the first comma, so the first element decides. The strings of
  \<^verbatim>\<open>null\<close>, of a boolean and of an object are no literal.
\<close>

fun parsed_value :: "json \<Rightarrow> js_number" where
  "parsed_value (JStr s) = parseFloat s"
| "parsed_value (JNum n) = n"
| "parsed_value (JArr (x # xs)) = parsed_value x"
| "parsed_value v = NaN"

definition parseFloat_value :: "json \<Rightarrow> js_error + js_number" where
  "parseFloat_value v =
     (if stringable v then Inr (parsed_value v)
      else Inl (js_TypeError ''Cannot convert object to primitive value''))"

definition parseFloat_arg :: "json option \<Rightarrow> js_error + js_number" where
  "parseFloat_arg v = (case v of None \<Rightarrow> Inr NaN | Some j \<Rightarrow> parseFloat_value j)"

text \<open>
  Lines 219-225: \<^verbatim>\<open>v ? parseFloat(v) : undefined\<close>; lines 215-217:
  \<^verbatim>\<open>Array.isArray(x) ? x[0] : x\<close>; lines 229 and 237: \<^verbatim>\<open>x && Array.isArray(x)\<close>.
\<close>

definition charge :: "json option \<Rightarrow> js_error + js_number option" where
  "charge v =
     (if truthy v then (case parseFloat_arg v of Inl e \<Rightarrow> Inl e | Inr n \<Rightarrow> Inr (Some n))
      else Inr None)"

definition first_if_array :: "json option \<Rightarrow> json option" where
  "first_if_array v =
     (case v of
        Some (JArr xs) \<Rightarrow> (case xs of [] \<Rightarrow> None | x # rest \<Rightarrow> Some x)
      | _ \<Rightarrow> v)"

definition alert_list :: "json option \<Rightarrow> json list" where
  "alert_list v = (case v of Some (JArr xs) \<Rightarrow> xs | _ \<Rightarrow> [])"

text \<open>
  The \<^verbatim>\<open>forEach\<close> calls of lines 230-234 and 238-242. \<^verbatim>\<open>alert.Description\<close> on
  a \<^verbatim>\<open>null\<close> entry throws a \<^verbatim>\<open>TypeError\<close>.
\<close>

fun push_descriptions :: "json list \<Rightarrow> json list \<Rightarrow> js_error + json list" where
  "push_descriptions acc [] = Inr acc"
| "push_descriptions acc (alert # rest) =
     (if alert = JNull then
        Inl (js_TypeError (''Cannot read properties of null (reading '' @ [CHR 0x27] @
               ''Description'' @ [CHR 0x27] @ '')''))
      else
        (case getp (Some alert) ''Description'' of
           None \<Rightarrow> push_descriptions acc rest
         | Some d \<Rightarrow> push_descriptions (if truthy (Some d) then acc @ [d] else acc) rest))"

text \<open>
  \<^verbatim>\<open>parseUpsResponse\<close> (lines 185-257). The statements that can throw run in
  the order of the source: the two checks, the amount (line 212), the base
  charge (line 219), the transportation charge (line 223), the per-shipment
  alerts, the per-response alerts.
\<close>

definition parseUpsResponse :: "json option \<Rightarrow> js_error + rate_quote list" where
  "parseUpsResponse response' =
     (let RateResponse = getp response' ''RateResponse'' in
      if \<not> truthy RateResponse then Inl (js_Error ''Invalid UPS response: missing RateResponse'')
      else
        let RatedShipment = getp RateResponse ''RatedShipment'' in
        if \<not> truthy RatedShipment then
          Inl (js_Error ''Invalid UPS response: missing RatedShipment'')
        else
          let Service = or_else (getp RatedShipment ''Service'') (Some (JObj []));
              serviceCode' = or_else (getp Service ''Code'') (Some (JStr []));
              serviceName' = or_else (getp Service ''Description'') (Some (JStr []));
              TotalCharges = or_else (getp RatedShipment ''TotalCharges'') (Some (JObj []))
          in
          (case parseFloat_arg
                  (or_else (getp TotalCharges ''MonetaryValue'') (Some (JStr ''0''))) of
             Inl e \<Rightarrow> Inl e
           | Inr amount' \<Rightarrow>
          let currency' = or_else (getp TotalCharges ''CurrencyCode'') (Some (JStr ''USD''));
              RatedPackage = first_if_array (getp RatedShipment ''RatedPackage'')
          in
          (case charge (getp (getp RatedPackage ''BaseServiceCharge'') ''MonetaryValue'') of
             Inl e \<Rightarrow> Inl e
           | Inr baseCharge' \<Rightarrow>
          (case charge (getp (getp RatedPackage ''TransportationCharges'') ''MonetaryValue'') of
             Inl e \<Rightarrow> Inl e
           | Inr transportationCharge' \<Rightarrow>
          (case push_descriptions [] (alert_list (getp RatedShipment ''RatedShipmentAlert'')) of
             Inl e \<Rightarrow> Inl e
           | Inr shipment_alerts \<Rightarrow>
          (case push_descriptions shipment_alerts
                  (alert_list (getp (getp RateResponse ''Response'') ''Alert'')) of
             Inl e \<Rightarrow> Inl e
           | Inr alerts' \<Rightarrow>
               Inr [\<lparr>carrier = ''UPS'',
                     serviceCode = serviceCode',
                     serviceName = or_else serviceName' None,
                     amount = amount',
                     currency = currency',
                     baseCharge = baseCharge',
                     transportationCharge = transportationCharge',
                     alerts = (if length alerts' > 0 then Some alerts' else None)\<rparr>]))))))"

section \<open>Rate operation (src/carriers/ups/operations/rate.operation.ts)\<close>

text \<open>
  \<^verbatim>\<open>error.response?.status\<close>, \<^verbatim>\<open>error.response?.data\<close>,
  \<^verbatim>\<open>error.response.headers\<close>; the test
  \<^verbatim>\<open>status && status >= lo && status < hi\<close> of lines 98 and 106; the status
  inside a message; \<^verbatim>\<open>error.message?.includes(sub)\<close>.
\<close>

definition status_of :: "js_error \<Rightarrow> int option" where
  "status_of error = (case response error of None \<Rightarrow> None | Some r \<Rightarrow> status r)"

definition data_of :: "js_error \<Rightarrow> json option" where
  "data_of error = (case response error of None \<Rightarrow> None | Some r \<Rightarrow> data r)"

definition headers_of :: "js_error \<Rightarrow> (string \<times> string) list option" where
  "headers_of error = (case response error of None \<Rightarrow> None | Some r \<Rightarrow> headers r)"

definition status_between :: "js_error \<Rightarrow> int \<Rightarrow> int option \<Rightarrow> bool" where
  "status_between error lo hi =
     (case status_of error of
        None \<Rightarrow> False
      | Some s \<Rightarrow> s \<noteq> 0 \<and> lo \<le> s \<and> (case hi of None \<Rightarrow> True | Some h \<Rightarrow> s < h))"

definition status_number :: "js_error \<Rightarrow> int" where
  "status_number error = (case status_of error of None \<Rightarrow> 0 | Some s \<Rightarrow> s)"

definition message_includes :: "js_error \<Rightarrow> string \<Rightarrow> bool" where
  "message_includes error sub =
     (case message error of None \<Rightarrow> False | Some m \<Rightarrow> str_includes m sub)"

text \<open>
  The catch block of \<^verbatim>\<open>execute\<close> (lines 70-157), in the order of the source.
  Line 90 reads \<^verbatim>\<open>error.response.headers['retry-after']\<close> and line 115 calls
  \<^verbatim>\<open>error.message.includes\<close> without \<^verbatim>\<open>?.\<close>: on absent headers or an absent
  message the runtime throws a \<^verbatim>\<open>TypeError\<close> out of the catch block.
\<close>

definition classify :: "js_error \<Rightarrow> thrown" where
  "classify error =
     (if status_of error = Some 401 then
        Classified (AuthenticationError
          ''UPS authentication failed: Invalid credentials or expired token''
          [(''originalError'', DText (message error)), (''status'', DStatus 401)])
      else if status_of error = Some 400 then
        Classified (HttpClientError 400 ''UPS rejected request: Invalid shipment data''
          [(''originalError'', DData (data_of error)), (''request'', DData (config error))])
      else if status_of error = Some 429 then
        (case headers_of error of
           None \<Rightarrow>
             Raw (js_TypeError (''Cannot read properties of undefined (reading '' @ [CHR 0x27] @
                    ''retry-after'' @ [CHR 0x27] @ '')''))
         | Some hs \<Rightarrow>
             Classified (RateLimitError ''UPS rate limit exceeded''
               (case map_of hs ''retry-after'' of
                  None \<Rightarrow> None
                | Some retryAfter \<Rightarrow>
                    if retryAfter \<noteq> [] then Some (num_times (parseInt retryAfter) 1000) else None)
               [(''originalError'', DText (message error))]))
      else if status_between error 400 (Some 500) then
        Classified (HttpClientError (status_number error)
          (''UPS request failed: HTTP '' @ String_int (status_number error))
          [(''originalError'', DData (data_of error))])
      else if status_between error 500 None then
        Classified (HttpServerError (status_number error)
          (''UPS server error: HTTP '' @ String_int (status_number error)) True
          [(''originalError'', DData (data_of error))])
      else if code error = Some ''ECONNABORTED'' then
        Classified (TimeoutError ''UPS request timed out'' (Some 30000)
          [(''originalError'', DText (message error))])
      else
        (case message error of
           None \<Rightarrow>
             Raw (js_TypeError (''Cannot read properties of undefined (reading '' @ [CHR 0x27] @
                    ''includes'' @ [CHR 0x27] @ '')''))
         | Some msg \<Rightarrow>
             if str_includes msg ''timeout'' then
               Classified (TimeoutError ''UPS request timed out'' (Some 30000)
                 [(''originalError'', DText (message error))])
             else if code error = Some ''ENOTFOUND'' \<or> code error = Some ''ECONNREFUSED'' then
               Classified (NetworkError ''Network error connecting to UPS API'' error
                 [(''code'', DText (code error)), (''originalError'', DText (message error))])
             else if message_includes error ''JSON'' \<or> syntax_error error then
               Classified (MalformedResponseError ''UPS API returned invalid JSON''
                 (map_option RawData (data_of error))
                 [(''originalError'', DText (message error))])
             else if message_includes error ''missing'' \<or> message_includes error ''RateResponse'' then
               Classified (MalformedResponseError ''UPS API response missing required fields''
                 (map_option Stringified (data_of error))
                 [(''originalError'', DText (message error))])
             else if (case name error of None \<Rightarrow> False | Some n \<Rightarrow> str_includes n ''Error'') \<and>
                     (case code error of None \<Rightarrow> False | Some c \<Rightarrow> c \<noteq> []) then
               Raw error
             else
               Classified (HttpServerError 500 ''Unknown error calling UPS API'' True
                 [(''originalError'',
                   (if msg \<noteq> [] then DText (message error) else DStringOf error))])))"

text \<open>
  \<^verbatim>\<open>execute\<close> (lines 49-158). Its collaborators are injected: \<open>getToken\<close> is
  what \<^verbatim>\<open>await this.tokenManager.getToken()\<close> settles to, \<open>post\<close> is
  \<^verbatim>\<open>this.http.post\<close> (URL, body and headers to a rejection or the reply's
  \<^verbatim>\<open>data\<close>), \<open>baseUrl\<close> and \<open>shipperNumber\<close> come from \<^verbatim>\<open>env\<close>, \<open>transID\<close>
  is what \<^verbatim>\<open>generateTransactionId()\<close> returns. All three awaited or called
  steps stand inside the one \<^verbatim>\<open>try\<close>.
\<close>

type_synonym transport = "string \<Rightarrow> json \<Rightarrow> (string \<times> string) list \<Rightarrow> js_error + json option"

definition execute ::
  "(js_error + string) \<Rightarrow> transport \<Rightarrow> string \<Rightarrow> string \<Rightarrow> (real \<Rightarrow> string) \<Rightarrow> string \<Rightarrow> string \<Rightarrow>
     rate_request \<Rightarrow> thrown + rate_quote list" where
  "execute getToken post baseUrl shipperNumber String uuid transID request =
     (case getToken of
        Inl error \<Rightarrow> Inl (classify error)
      | Inr token' \<Rightarrow>
          (case post (baseUrl @ ''/api/rating/v2403/rate'')
                  (mapToUpsRequest String uuid request shipperNumber)
                  [(''Authorization'', ''Bearer '' @ token'),
                   (''Content-Type'', ''application/json''),
                   (''transID'', transID),
                   (''transactionSrc'', ''RatingService'')] of
             Inl error \<Rightarrow> Inl (classify error)
           | Inr response_data \<Rightarrow>
               (case parseUpsResponse response_data of
                  Inl error \<Rightarrow> Inl (classify error)
                | Inr quotes \<Rightarrow> Inr quotes)))"

section \<open>Notions used in the statements\<close>

text \<open>Parts of a wire request, read back with the property access above.\<close>

definition shipment_of :: "json \<Rightarrow> json option" where
  "shipment_of doc = getp (getp (Some doc) ''RateRequest'') ''Shipment''"

definition transaction_reference_of :: "json \<Rightarrow> string \<Rightarrow> json option" where
  "transaction_reference_of doc k =
     getp (getp (getp (getp (Some doc) ''RateRequest'') ''Request'') ''TransactionReference'') k"

text \<open>
  The truthy \<^verbatim>\<open>Description\<close> values of a list of alerts, in order; and a number
  that is a non-negative real.
\<close>

definition descriptions :: "json list \<Rightarrow> json list" where
  "descriptions xs =
     filter (\<lambda>d. truthy (Some d)) (List.map_filter (\<lambda>a. getp (Some a) ''Description'') xs)"

definition nonneg_real :: "js_number \<Rightarrow> bool" where
  "nonneg_real n = (case n of Num x \<Rightarrow> 0 \<le> x | _ \<Rightarrow> False)"

text \<open>
  A value whose conversion to a string does not throw; what \<^verbatim>\<open>parseFloat\<close>
  then reads from it; and the charge of lines 219-225 read from it.
\<close>

definition convertible :: "json option \<Rightarrow> bool" where
  "convertible v = (case v of None \<Rightarrow> True | Some j \<Rightarrow> stringable j)"

definition parsed_arg :: "json option \<Rightarrow> js_number" where
  "parsed_arg v = (case v of None \<Rightarrow> NaN | Some j \<Rightarrow> parsed_value j)"

definition charge_of :: "json option \<Rightarrow> js_number option" where
  "charge_of v = (if truthy v then Some (parsed_arg v) else None)"

text \<open>The conditions of the catch block, by line: 71-113, 115, 123, 131, 139, 147.\<close>

definition no_http_status :: "js_error \<Rightarrow> bool" where
  "no_http_status error =
     (status_of error \<noteq> Some 401 \<and> status_of error \<noteq> Some 400 \<and> status_of error \<noteq> Some 429 \<and>
      \<not> status_between error 400 (Some 500) \<and> \<not> status_between error 500 None)"

definition is_timeout :: "js_error \<Rightarrow> bool" where
  "is_timeout error = (code error = Some ''ECONNABORTED'' \<or> message_includes error ''timeout'')"

definition is_network :: "js_error \<Rightarrow> bool" where
  "is_network error = (code error = Some ''ENOTFOUND'' \<or> code error = Some ''ECONNREFUSED'')"

definition is_json_failure :: "js_error \<Rightarrow> bool" where
  "is_json_failure error = (message_includes error ''JSON'' \<or> syntax_error error)"

definition is_missing_field :: "js_error \<Rightarrow> bool" where
  "is_missing_field error =
     (message_includes error ''missing'' \<or> message_includes error ''RateResponse'')"

definition looks_classified :: "js_error \<Rightarrow> bool" where
  "looks_classified error =
     ((case name error of None \<Rightarrow> False | Some n \<Rightarrow> str_includes n ''Error'') \<and>
      (case code error of None \<Rightarrow> False | Some c \<Rightarrow> c \<noteq> []))"

text \<open>An error that gets as far as line 147 and passes its test.\<close>

definition reaches_rethrow :: "js_error \<Rightarrow> bool" where
  "reaches_rethrow error =
     (no_http_status error \<and> \<not> is_timeout error \<and> message error \<noteq> None \<and> \<not> is_network error \<and>
      \<not> is_json_failure error \<and> \<not> is_missing_field error \<and> looks_classified error)"


section \<open>Sample inputs\<close>

text \<open>
  The request of \<^verbatim>\<open>src/index.ts\<close>, a number-to-string conversion that is right
  on whole numbers, the reply \<^verbatim>\<open>validUpsResponse\<close> of the test suite, replies
  with alerts, with a \<^verbatim>\<open>null\<close> alert, with a charge that does not convert to
  a string, with a charge beyond the range of doubles and with a negative
  charge, and errors as an HTTP client and the runtime raise them.
\<close>

definition sample_request :: rate_request where
  "sample_request =
     \<lparr>shipFrom = \<lparr>address.name = ''Sender Company'', addressLines = [''123 Main Street''],
                   city = ''TIMONIUM'', state = Some ''MD'', postalCode = ''21093'',
                   countryCode = ''US''\<rparr>,
      shipTo = \<lparr>address.name = ''Receiver Company'', addressLines = [''456 Oak Avenue''],
                 city = ''Alpharetta'', state = Some ''GA'', postalCode = ''30005'',
                 countryCode = ''US''\<rparr>,
      packages = [\<lparr>weight = 7, weightUnit = LBS, length_dim = 5, width = 5, height = 5,
                    dimensionUnit = IN\<rparr>]\<rparr>"

definition String_whole :: "real \<Rightarrow> string" where
  "String_whole x = String_int \<lfloor>x\<rfloor>"

definition validUpsResponse :: json where
  "validUpsResponse =
     JObj [(''RateResponse'',
       JObj [(''Response'', JObj [(''ResponseStatus'',
                JObj [(''Code'', JStr ''1''), (''Description'', JStr ''Success'')])]),
             (''RatedShipment'',
                JObj [(''Service'', JObj [(''Code'', JStr ''03''), (''Description'', JStr ''Ground'')]),
                      (''TotalCharges'',
                         JObj [(''CurrencyCode'', JStr ''USD''), (''MonetaryValue'', JStr ''15.54'')]),
                      (''RatedPackage'',
                         JObj [(''BaseServiceCharge'', JObj [(''MonetaryValue'', JStr ''14.46'')]),
                               (''TransportationCharges'',
                                  JObj [(''MonetaryValue'', JStr ''15.54'')])])])])]"

definition alertUpsResponse :: json where
  "alertUpsResponse =
     JObj [(''RateResponse'',
       JObj [(''Response'',
                JObj [(''Alert'', JArr [JObj [(''Code'', JStr ''110971''),
                                             (''Description'', JStr ''Rates may vary'')]])]),
             (''RatedShipment'',
                JObj [(''RatedShipmentAlert'',
                         JArr [JObj [(''Code'', JStr ''120900''),
                                     (''Description'', JStr ''Address is residential'')]]),
                      (''RatedPackage'',
                         JArr [JObj [(''BaseServiceCharge'', JObj [(''MonetaryValue'', JStr ''14.46'')])],
                               JObj [(''BaseServiceCharge'', JObj [(''MonetaryValue'', JStr ''99'')])]])])])]"

definition nullAlertResponse :: json where
  "nullAlertResponse =
     JObj [(''RateResponse'',
       JObj [(''RatedShipment'', JObj [(''RatedShipmentAlert'', JArr [JNull])])])]"

definition toStringChargeResponse :: json where
  "toStringChargeResponse =
     JObj [(''RateResponse'',
       JObj [(''RatedShipment'',
          JObj [(''TotalCharges'',
                   JObj [(''MonetaryValue'', JObj [(''toString'', JNum (Num 1))])])])])]"

definition overflowChargeResponse :: json where
  "overflowChargeResponse =
     JObj [(''RateResponse'',
       JObj [(''RatedShipment'',
          JObj [(''TotalCharges'', JObj [(''MonetaryValue'', JStr ''1e309'')])])])]"

definition negativeChargeResponse :: json where
  "negativeChargeResponse =
     JObj [(''RateResponse'',
       JObj [(''RatedShipment'',
          JObj [(''TotalCharges'', JObj [(''MonetaryValue'', JStr ''-5.00'')])])])]"



section \<open>Properties of the token lifecycle manager\<close>

subsection \<open>Invariants of the event loop\<close>

lemma filter_update_less:
  "i < length xs \<Longrightarrow> P (xs ! i) \<Longrightarrow> \<not> P y \<Longrightarrow>
     Suc (length (filter P (xs[i := y]))) = length (filter P xs)"
proof (induction xs arbitrary: i)
  case Nil
  then show ?case by simp
next
  case (Cons x xs)
  then show ?case by (cases i) auto
qed

lemma no_awaiting_filter:
  "(\<forall>q. Awaiting q \<notin> set cs) \<Longrightarrow> filter is_awaiting cs = []"
proof (induction cs)
  case Nil
  then show ?case by simp
next
  case (Cons c cs)
  then show ?case by (cases c) auto
qed

lemma filter_empty_no_awaiting:
  "filter is_awaiting cs = [] \<Longrightarrow> Awaiting q \<notin> set cs"
  by (auto simp: filter_empty_conv)

lemma getToken_call_inv:
  assumes s: "starters_ok w" and p: "pending_ok w"
  shows "starters_ok (getToken_call w now) \<and> pending_ok (getToken_call w now)"
proof (cases "getToken_path (mgr w) now")
  case (Hit t)
  then have eq: "getToken_call w now = w\<lparr>callers := callers w @ [Returned t]\<rparr>"
    by (simp add: getToken_call_def)
  have "starters_ok (w\<lparr>callers := callers w @ [Returned t]\<rparr>)"
    using s by (simp add: starters_ok_def)
  moreover have "pending_ok (w\<lparr>callers := callers w @ [Returned t]\<rparr>)"
    using p by (simp add: pending_ok_def)
  ultimately show ?thesis by (simp add: eq)
next
  case (Join q)
  then have eq: "getToken_call w now = w\<lparr>callers := callers w @ [Joined q]\<rparr>"
    by (simp add: getToken_call_def)
  have "starters_ok (w\<lparr>callers := callers w @ [Joined q]\<rparr>)"
    using s by (simp add: starters_ok_def)
  moreover have "pending_ok (w\<lparr>callers := callers w @ [Joined q]\<rparr>)"
    using p by (simp add: pending_ok_def)
  ultimately show ?thesis by (simp add: eq)
next
  case Start
  let ?n = "length (ops w)"
  let ?w' = "w\<lparr>mgr := (mgr w)\<lparr>refreshing := Some ?n\<rparr>, ops := ops w @ [Pending],
                callers := callers w @ [Awaiting ?n]\<rparr>"
  from Start have eq: "getToken_call w now = ?w'"
    by (simp add: getToken_call_def)
  from Start have none: "refreshing (mgr w) = None"
    by (simp add: getToken_path_def split: if_splits option.splits)
  from s none have noaw: "\<forall>q. Awaiting q \<notin> set (callers w)"
    by (auto simp: starters_ok_def)
  then have fe: "filter is_awaiting (callers w) = []"
    by (rule no_awaiting_filter)
  from p none have nopen: "\<forall>q<?n. ops w ! q \<noteq> Pending"
    by (auto simp: pending_ok_def)
  have "starters_ok ?w'"
    using fe noaw by (simp add: starters_ok_def)
  moreover have "pending_ok ?w'"
    using nopen by (auto simp: pending_ok_def nth_append)
  ultimately show ?thesis by (simp only: eq)
qed

lemma refresh_resume_inv:
  assumes s: "starters_ok w" and p: "pending_ok w"
  shows "starters_ok (refresh_resume w q r now) \<and> pending_ok (refresh_resume w q r now)"
proof (cases "q < length (ops w) \<and> ops w ! q = Pending")
  case False
  then have "refresh_resume w q r now = w" by (auto simp: refresh_resume_def)
  with s p show ?thesis by simp
next
  case True
  have st: "starters_ok (refresh_resume w q r now)"
    using True s by (cases r) (simp_all add: refresh_resume_def starters_ok_def)
  have "refreshing (mgr w) = Some k"
    if "k < length (ops w)" and "(ops w)[q := Settled x] ! k = Pending" for k x
  proof -
    from that True have "ops w ! k = Pending"
      by (simp add: nth_list_update split: if_splits)
    with p that(1) show ?thesis by (simp add: pending_ok_def)
  qed
  then have "pending_ok (refresh_resume w q r now)"
    using True by (cases r) (simp_all add: refresh_resume_def pending_ok_def)
  with st show ?thesis ..
qed

lemma getToken_resume_inv:
  assumes s: "starters_ok w" and p: "pending_ok w"
  shows "starters_ok (getToken_resume w c) \<and> pending_ok (getToken_resume w c)"
proof (cases "c < length (callers w)")
  case False
  then have "getToken_resume w c = w" by (simp add: getToken_resume_def)
  with s p show ?thesis by simp
next
  case c: True
  show ?thesis
  proof (cases "callers w ! c")
    case (Awaiting q)
    with c have mem: "Awaiting q \<in> set (callers w)"
      by (metis nth_mem)
    with s have rq: "refreshing (mgr w) = Some q"
      by (simp add: starters_ok_def)
    have shrink: "Suc (length (filter is_awaiting ((callers w)[c := Finished x]))) =
        length (filter is_awaiting (callers w))" for x
      using c Awaiting by (intro filter_update_less) simp_all
    show ?thesis
    proof (cases "q < length (ops w)")
      case False
      with c Awaiting have "getToken_resume w c = w" by (simp add: getToken_resume_def)
      with s p show ?thesis by simp
    next
      case q: True
      show ?thesis
      proof (cases "ops w ! q")
        case Pending
        with c Awaiting q have "getToken_resume w c = w" by (simp add: getToken_resume_def)
        with s p show ?thesis by simp
      next
        case (Settled r)
        show ?thesis
        proof (cases r)
          case (Fulfilled t)
          let ?w' = "w\<lparr>mgr := (mgr w)\<lparr>refreshing := None\<rparr>,
                        callers := (callers w)[c := Finished (Fulfilled t)]\<rparr>"
          from c Awaiting q Settled Fulfilled have eq: "getToken_resume w c = ?w'"
            by (simp add: getToken_resume_def)
          from s have "length (filter is_awaiting (callers w)) \<le> 1"
            by (simp add: starters_ok_def)
          with shrink[of "Fulfilled t"]
          have "length (filter is_awaiting ((callers w)[c := Finished (Fulfilled t)])) = 0"
            by linarith
          then have "filter is_awaiting ((callers w)[c := Finished (Fulfilled t)]) = []"
            by (simp only: length_0_conv)
          then have "starters_ok ?w'"
            by (simp add: starters_ok_def filter_empty_no_awaiting)
          moreover have "pending_ok ?w'"
          proof -
            have "ops w ! k \<noteq> Pending" if "k < length (ops w)" for k
            proof
              assume "ops w ! k = Pending"
              with p that have "refreshing (mgr w) = Some k" by (simp add: pending_ok_def)
              with rq have "k = q" by simp
              with \<open>ops w ! k = Pending\<close> Settled show False by simp
            qed
            then show ?thesis by (simp add: pending_ok_def)
          qed
          ultimately show ?thesis by (simp only: eq)
        next
          case (Rejected e)
          let ?w' = "w\<lparr>callers := (callers w)[c := Finished (Rejected e)]\<rparr>"
          from c Awaiting q Settled Rejected have eq: "getToken_resume w c = ?w'"
            by (simp add: getToken_resume_def)
          have "Awaiting k \<in> set ((callers w)[c := Finished (Rejected e)]) \<Longrightarrow>
                Awaiting k \<in> set (callers w)" for k
            using set_update_subset_insert[of "callers w" c "Finished (Rejected e)"] by auto
          with s shrink[of "Rejected e"] have "starters_ok ?w'"
            by (auto simp: starters_ok_def)
          moreover from p have "pending_ok ?w'"
            by (simp add: pending_ok_def)
          ultimately show ?thesis by (simp only: eq)
        qed
      qed
    qed
  next
    case (Returned t)
    with c have "getToken_resume w c = w" by (simp add: getToken_resume_def)
    with s p show ?thesis by simp
  next
    case (Joined q)
    with c have "getToken_resume w c = w" by (simp add: getToken_resume_def)
    with s p show ?thesis by simp
  next
    case (Finished r)
    with c have "getToken_resume w c = w" by (simp add: getToken_resume_def)
    with s p show ?thesis by simp
  qed
qed

lemma step_inv:
  "starters_ok w \<Longrightarrow> pending_ok w \<Longrightarrow> starters_ok (step w ev) \<and> pending_ok (step w ev)"
  by (cases ev) (simp_all add: getToken_call_inv refresh_resume_inv getToken_resume_inv)

lemma exec_inv:
  "starters_ok w \<Longrightarrow> pending_ok w \<Longrightarrow> starters_ok (exec w es) \<and> pending_ok (exec w es)"
proof (induction es arbitrary: w)
  case Nil
  then show ?case by (simp add: exec_def)
next
  case (Cons ev es)
  from step_inv[OF Cons.prems] Cons.IH[of "step w ev"] show ?case
    by (simp add: exec_def)
qed

lemma cold_inv: "starters_ok cold \<and> pending_ok cold"
  by (simp add: cold_def starters_ok_def pending_ok_def)

lemma pending_ok_outstanding:
  assumes "pending_ok w"
  shows "outstanding w \<le> 1"
proof -
  have eq: "outstanding w = card {i. i < length (ops w) \<and> ops w ! i = Pending}"
    by (simp add: outstanding_def length_filter_conv_card)
  show ?thesis
  proof (cases "refreshing (mgr w)")
    case None
    with assms have "{i. i < length (ops w) \<and> ops w ! i = Pending} = {}"
      by (auto simp: pending_ok_def)
    with eq show ?thesis by simp
  next
    case (Some p)
    with assms have "{i. i < length (ops w) \<and> ops w ! i = Pending} \<subseteq> {p}"
      by (auto simp: pending_ok_def)
    then have "card {i. i < length (ops w) \<and> ops w ! i = Pending} \<le> card {p}"
      by (intro card_mono) auto
    with eq show ?thesis by simp
  qed
qed

lemma outstanding_exec_cold: "outstanding (exec (cold :: 'e world) es) \<le> 1"
  using exec_inv[of cold es] cold_inv pending_ok_outstanding by blast

subsection \<open>Concurrent invocations\<close>

lemma exec_Nil: "exec w [] = w"
  by (simp add: exec_def)

lemma exec_Cons: "exec w (ev # es) = exec (step w ev) es"
  by (simp add: exec_def)

lemma exec_append: "exec w (es @ fs) = exec (exec w es) fs"
  by (simp add: exec_def)

lemma exec_joiners:
  "token (mgr w) = None \<Longrightarrow> refreshing (mgr w) = Some p \<Longrightarrow>
   exec w (map Call ts) = w\<lparr>callers := callers w @ replicate (length ts) (Joined p)\<rparr>"
proof (induction ts arbitrary: w)
  case Nil
  then show ?case by (simp add: exec_Nil)
next
  case (Cons t ts)
  let ?w' = "w\<lparr>callers := callers w @ [Joined p]\<rparr>"
  from Cons.prems have "getToken_path (mgr w) t = Join p"
    by (simp add: getToken_path_def cache_valid_def)
  then have st: "step w (Call t) = ?w'"
    by (simp add: getToken_call_def)
  from Cons.prems have "exec ?w' (map Call ts) =
      ?w'\<lparr>callers := callers ?w' @ replicate (length ts) (Joined p)\<rparr>"
    by (intro Cons.IH) simp_all
  with st show ?case
    by (simp add: exec_Cons replicate_app_Cons_same)
qed

lemma exec_late_callers:
  "token (mgr w) = Some tok \<Longrightarrow> refreshing (mgr w) = Some p \<Longrightarrow>
   \<exists>cs. exec w (map Call ts) = w\<lparr>callers := callers w @ cs\<rparr> \<and>
        length cs = length ts \<and> set cs \<subseteq> {Returned tok, Joined p}"
proof (induction ts arbitrary: w)
  case Nil
  then show ?case by (simp add: exec_Nil)
next
  case (Cons t ts)
  from Cons.prems have "getToken_path (mgr w) t = Hit tok \<or> getToken_path (mgr w) t = Join p"
    by (simp add: getToken_path_def)
  then have "\<exists>c. (c = Returned tok \<or> c = Joined p) \<and>
      step w (Call t) = w\<lparr>callers := callers w @ [c]\<rparr>"
  proof
    assume "getToken_path (mgr w) t = Hit tok"
    then have "step w (Call t) = w\<lparr>callers := callers w @ [Returned tok]\<rparr>"
      by (simp add: getToken_call_def)
    then show ?thesis by blast
  next
    assume "getToken_path (mgr w) t = Join p"
    then have "step w (Call t) = w\<lparr>callers := callers w @ [Joined p]\<rparr>"
      by (simp add: getToken_call_def)
    then show ?thesis by blast
  qed
  then obtain c where c: "c = Returned tok \<or> c = Joined p"
    and st: "step w (Call t) = w\<lparr>callers := callers w @ [c]\<rparr>"
    by blast
  let ?w' = "w\<lparr>callers := callers w @ [c]\<rparr>"
  from Cons.prems have "\<exists>cs. exec ?w' (map Call ts) = ?w'\<lparr>callers := callers ?w' @ cs\<rparr> \<and>
        length cs = length ts \<and> set cs \<subseteq> {Returned tok, Joined p}"
    by (intro Cons.IH) simp_all
  then obtain cs where cs: "exec ?w' (map Call ts) = ?w'\<lparr>callers := callers ?w' @ cs\<rparr>"
    "length cs = length ts" "set cs \<subseteq> {Returned tok, Joined p}"
    by blast
  have "exec w (map Call (t # ts)) = w\<lparr>callers := callers w @ (c # cs)\<rparr>"
    using st cs(1) by (simp add: exec_Cons)
  moreover have "length (c # cs) = length (t # ts)"
    using cs(2) by simp
  moreover have "set (c # cs) \<subseteq> {Returned tok, Joined p}"
    using c cs(3) by auto
  ultimately show ?case by blast
qed

lemma concurrent_calls_cold:
  fixes res :: fetch_result and t t' :: int and ts ts' :: "int list"
  defines "tok \<equiv> access_token res"
  defines "w \<equiv> exec (cold :: 'e world)
      (map Call (t # ts) @ [FetchDone 0 (Inr res) t'] @ map Call ts' @ [Resume 0])"
  shows "fetches w = 1" and "outstanding w = 0"
    and "length (callers w) = Suc (length ts + length ts')"
    and "\<forall>c\<in>set (callers w). resolved w c = Some (Fulfilled tok)"
proof -
  let ?m1 = "\<lparr>token = None, expiresAt = None, refreshing = Some 0\<rparr>"
  let ?w1 = "\<lparr>mgr = ?m1, ops = [Pending], callers = [Awaiting 0]\<rparr> :: 'e world"
  have s1: "step cold (Call t) = ?w1"
    by (simp add: cold_def getToken_call_def getToken_path_def cache_valid_def)
  let ?w2 = "?w1\<lparr>callers := Awaiting 0 # replicate (length ts) (Joined 0)\<rparr>"
  have s2: "exec ?w1 (map Call ts) = ?w2"
    using exec_joiners[of ?w1 0 ts] by simp
  let ?m3 = "\<lparr>token = Some tok, expiresAt = Some (t' + expires_in res * 1000 - 30000),
              refreshing = Some 0\<rparr>"
  let ?w3 = "\<lparr>mgr = ?m3, ops = [Settled (Fulfilled tok)],
              callers = Awaiting 0 # replicate (length ts) (Joined 0)\<rparr> :: 'e world"
  have s3: "step ?w2 (FetchDone 0 (Inr res) t') = ?w3"
    by (simp add: refresh_resume_def tok_def)
  obtain cs where cs: "exec ?w3 (map Call ts') = ?w3\<lparr>callers := callers ?w3 @ cs\<rparr>"
    "length cs = length ts'" "set cs \<subseteq> {Returned tok, Joined 0}"
    using exec_late_callers[of ?w3 tok 0 ts'] by auto
  let ?w4 = "?w3\<lparr>callers := Awaiting 0 # replicate (length ts) (Joined 0) @ cs\<rparr>"
  have s4: "exec ?w3 (map Call ts') = ?w4"
    using cs(1) by simp
  let ?w5 = "\<lparr>mgr = ?m3\<lparr>refreshing := None\<rparr>, ops = [Settled (Fulfilled tok)],
              callers = Finished (Fulfilled tok) # replicate (length ts) (Joined 0) @ cs\<rparr> :: 'e world"
  have s5: "step ?w4 (Resume 0) = ?w5"
    by (simp add: getToken_resume_def)
  have w: "w = ?w5"
    unfolding w_def
    by (simp only: exec_append exec_Cons exec_Nil list.map append_Cons append_Nil s1 s2 s3 s4 s5)
  show "fetches w = 1" by (simp add: w fetches_def)
  show "outstanding w = 0" by (simp add: w outstanding_def)
  show "length (callers w) = Suc (length ts + length ts')" by (simp add: w cs(2))
  show "\<forall>c\<in>set (callers w). resolved w c = Some (Fulfilled tok)"
  proof
    fix c assume "c \<in> set (callers w)"
    with cs(3) have "c = Finished (Fulfilled tok) \<or> c = Joined 0 \<or> c = Returned tok"
      by (auto simp: w)
    then show "resolved w c = Some (Fulfilled tok)"
      by (auto simp: w resolved_def)
  qed
qed

lemma join_in_flight:
  "\<not> cache_valid (mgr w) now \<Longrightarrow> refreshing (mgr w) = Some p \<Longrightarrow>
   getToken_call w now = w\<lparr>callers := callers w @ [Joined p]\<rparr>"
  by (simp add: getToken_call_def getToken_path_def)

text \<open>
  Claim C1 (single-flight). In every schedule of invocations, fetch settlements
  and resumptions on a newly constructed manager, at most one
  \<^verbatim>\<open>fetchToken\<close> call is outstanding. An invocation that misses the cache while
  \<^verbatim>\<open>refreshing\<close> holds a promise returns that promise and calls no fetch. When
  \<open>1 + length ts\<close> invocations arrive before the fetch settles and \<open>length ts'\<close>
  more before the first invocation is resumed, and the fetch succeeds, exactly
  one fetch was made and every invocation resolves to the fetched token.
\<close>

theorem single_flight:
  fixes es :: "'e event list" and w :: "'e world" and res :: fetch_result
  shows "outstanding (exec (cold :: 'e world) es) \<le> 1 \<and>
    (\<not> cache_valid (mgr w) now \<and> refreshing (mgr w) = Some p \<longrightarrow>
       getToken_call w now = w\<lparr>callers := callers w @ [Joined p]\<rparr> \<and>
       fetches (getToken_call w now) = fetches w) \<and>
    (let w' = exec (cold :: 'e world)
         (map Call (t # ts) @ [FetchDone 0 (Inr res) t'] @ map Call ts' @ [Resume 0])
     in fetches w' = 1 \<and> length (callers w') = Suc (length ts + length ts') \<and>
        (\<forall>c\<in>set (callers w'). resolved w' c = Some (Fulfilled (access_token res))))"
proof (intro conjI impI)
  show "outstanding (exec (cold :: 'e world) es) \<le> 1"
    by (rule outstanding_exec_cold)
next
  assume "\<not> cache_valid (mgr w) now \<and> refreshing (mgr w) = Some p"
  then show "getToken_call w now = w\<lparr>callers := callers w @ [Joined p]\<rparr>"
    by (simp add: join_in_flight)
  then show "fetches (getToken_call w now) = fetches w"
    by (simp add: fetches_def)
next
  show "let w' = exec (cold :: 'e world)
         (map Call (t # ts) @ [FetchDone 0 (Inr res) t'] @ map Call ts' @ [Resume 0])
     in fetches w' = 1 \<and> length (callers w') = Suc (length ts + length ts') \<and>
        (\<forall>c\<in>set (callers w'). resolved w' c = Some (Fulfilled (access_token res)))"
    unfolding Let_def
    using concurrent_calls_cold(1,3,4)[of t ts res t' ts', where ?'e = 'e] by blast
qed

theorem single_flight_witness:
  "outstanding (exec (cold :: string world)
      [Call 0, Call 1, FetchDone 0 (Inr \<lparr>access_token = ''token'', expires_in = 10\<rparr>) 100,
       Resume 0, Call 200, Call 201]) \<le> 1 \<and>
   \<not> cache_valid \<lparr>token = None, expiresAt = None, refreshing = Some 0\<rparr> 5 \<and>
   getToken_call \<lparr>mgr = \<lparr>token = None, expiresAt = None, refreshing = Some 0\<rparr>,
        ops = [Pending], callers = [Awaiting 0 :: string caller]\<rparr> 5 =
     \<lparr>mgr = \<lparr>token = None, expiresAt = None, refreshing = Some 0\<rparr>,
        ops = [Pending], callers = [Awaiting 0, Joined 0]\<rparr> \<and>
   fetches (exec (cold :: string world)
      [Call 0, Call 0, Call 0,
       FetchDone 0 (Inr \<lparr>access_token = ''token'', expires_in = 3600\<rparr>) 100, Resume 0]) = 1 \<and>
   map (resolved (exec (cold :: string world)
      [Call 0, Call 0, Call 0,
       FetchDone 0 (Inr \<lparr>access_token = ''token'', expires_in = 3600\<rparr>) 100, Resume 0]))
     (callers (exec (cold :: string world)
      [Call 0, Call 0, Call 0,
       FetchDone 0 (Inr \<lparr>access_token = ''token'', expires_in = 3600\<rparr>) 100, Resume 0])) =
     [Some (Fulfilled ''token''), Some (Fulfilled ''token''), Some (Fulfilled ''token'')]"
  using single_flight[where ?'e = string and
      es = "[Call 0, Call 1, FetchDone 0 (Inr \<lparr>access_token = ''token'', expires_in = 10\<rparr>) 100,
       Resume 0, Call 200, Call 201]" and
      w = "\<lparr>mgr = \<lparr>token = None, expiresAt = None, refreshing = Some 0\<rparr>,
        ops = [Pending], callers = [Awaiting 0]\<rparr>" and now = 5 and p = 0 and
      t = 0 and ts = "[0, 0]" and ts' = "[]" and t' = 100 and
      res = "\<lparr>access_token = ''token'', expires_in = 3600\<rparr>"]
  by (simp add: exec_def cold_def getToken_call_def getToken_path_def cache_valid_def
      refresh_resume_def getToken_resume_def fetches_def resolved_def)

text \<open>
  Claim C2 (the in-flight marker after a failed fetch). When the fetch of the
  first invocation is rejected with \<open>e\<close>, line 20 throws and line 21 is skipped:
  \<^verbatim>\<open>refreshing\<close> keeps the rejected promise. Every later invocation, at any clock
  reading, misses the cache (nothing was stored), finds the marker set and
  returns the rejected promise: \<^verbatim>\<open>fetchToken\<close> is never called again and every
  invocation ends with \<open>e\<close>.
\<close>

theorem failed_refresh_never_retried:
  "fetches (exec (cold :: 'e world) ([Call t, FetchDone 0 (Inl e) t', Resume 0] @ map Call ts)) = 1 \<and>
   refreshing (mgr (exec (cold :: 'e world)
      ([Call t, FetchDone 0 (Inl e) t', Resume 0] @ map Call ts))) = Some 0 \<and>
   map (resolved (exec (cold :: 'e world) ([Call t, FetchDone 0 (Inl e) t', Resume 0] @ map Call ts)))
     (callers (exec (cold :: 'e world) ([Call t, FetchDone 0 (Inl e) t', Resume 0] @ map Call ts))) =
     replicate (Suc (length ts)) (Some (Rejected e))"
proof -
  let ?m = "\<lparr>token = None, expiresAt = None, refreshing = Some 0\<rparr>"
  let ?w3 = "\<lparr>mgr = ?m, ops = [Settled (Rejected e)], callers = [Finished (Rejected e)]\<rparr> :: 'e world"
  have a: "exec (cold :: 'e world) [Call t, FetchDone 0 (Inl e) t', Resume 0] = ?w3"
    by (simp add: exec_def cold_def getToken_call_def getToken_path_def cache_valid_def
        refresh_resume_def getToken_resume_def)
  have b: "exec ?w3 (map Call ts) = ?w3\<lparr>callers := callers ?w3 @ replicate (length ts) (Joined 0)\<rparr>"
    by (rule exec_joiners) simp_all
  have c: "exec (cold :: 'e world) ([Call t, FetchDone 0 (Inl e) t', Resume 0] @ map Call ts) =
      \<lparr>mgr = ?m, ops = [Settled (Rejected e)],
       callers = Finished (Rejected e) # replicate (length ts) (Joined 0)\<rparr>"
    by (simp only: exec_append a b) simp
  show ?thesis
    by (simp only: c) (simp add: fetches_def resolved_def)
qed

subsection \<open>Cache hits and the expiry buffer\<close>

lemma hit_iff:
  "(getToken_path m now = Hit t) =
   (token m = Some t \<and> t \<noteq> [] \<and> (\<exists>e. expiresAt m = Some e \<and> now < e))"
  by (auto simp: getToken_path_def cache_valid_def split: option.splits)

lemma hit_returns:
  "getToken_path (mgr w) now = Hit t \<Longrightarrow>
   getToken_call w now = w\<lparr>callers := callers w @ [Returned t]\<rparr>"
  by (simp add: getToken_call_def)

lemma miss_fetches_or_joins:
  assumes "\<forall>t. getToken_path (mgr w) now \<noteq> Hit t"
  shows "(\<exists>p. getToken_call w now = w\<lparr>callers := callers w @ [Joined p]\<rparr>) \<or>
         fetches (getToken_call w now) = Suc (fetches w)"
proof (cases "getToken_path (mgr w) now")
  case (Hit t)
  with assms show ?thesis by simp
next
  case (Join p)
  then have "getToken_call w now = w\<lparr>callers := callers w @ [Joined p]\<rparr>"
    by (simp add: getToken_call_def)
  then show ?thesis by blast
next
  case Start
  then show ?thesis by (simp add: getToken_call_def fetches_def)
qed

lemma refresh_stores:
  "p < length (ops w) \<Longrightarrow> ops w ! p = Pending \<Longrightarrow>
   token (mgr (refresh_resume w p (Inr res) now)) = Some (access_token res) \<and>
   expiresAt (mgr (refresh_resume w p (Inr res) now)) = Some (now + expires_in res * 1000 - 30000)"
  by (simp add: refresh_resume_def)

lemma first_call_cold:
  "exec (cold :: 'e world) [Call calla, FetchDone 0 (Inr res) storea, Resume 0] =
   \<lparr>mgr = \<lparr>token = Some (access_token res),
            expiresAt = Some (storea + expires_in res * 1000 - 30000), refreshing = None\<rparr>,
    ops = [Settled (Fulfilled (access_token res))],
    callers = [Finished (Fulfilled (access_token res))]\<rparr>"
  by (simp add: exec_def cold_def getToken_call_def getToken_path_def cache_valid_def
      refresh_resume_def getToken_resume_def)

lemma two_calls_3600:
  assumes "tok \<noteq> []" "callb < storea + 3570000"
  shows "exec (cold :: 'e world)
      [Call calla, FetchDone 0 (Inr \<lparr>access_token = tok, expires_in = 3600\<rparr>) storea, Resume 0, Call callb] =
    \<lparr>mgr = \<lparr>token = Some tok, expiresAt = Some (storea + 3570000), refreshing = None\<rparr>,
     ops = [Settled (Fulfilled tok)],
     callers = [Finished (Fulfilled tok), Returned tok]\<rparr>"
proof -
  have "exec (cold :: 'e world)
      [Call calla, FetchDone 0 (Inr \<lparr>access_token = tok, expires_in = 3600\<rparr>) storea, Resume 0, Call callb] =
     step (exec (cold :: 'e world)
      [Call calla, FetchDone 0 (Inr \<lparr>access_token = tok, expires_in = 3600\<rparr>) storea, Resume 0]) (Call callb)"
    by (simp add: exec_def)
  also have "\<dots> = \<lparr>mgr = \<lparr>token = Some tok, expiresAt = Some (storea + 3570000), refreshing = None\<rparr>,
     ops = [Settled (Fulfilled tok)],
     callers = [Finished (Fulfilled tok), Returned tok]\<rparr>"
    using assms
    by (simp only: first_call_cold) (simp add: getToken_call_def getToken_path_def cache_valid_def)
  finally show ?thesis .
qed

lemma second_fetch_100:
  "exec (cold :: 'e world)
      [Call calla, FetchDone 0 (Inr \<lparr>access_token = tok, expires_in = 100\<rparr>) storea, Resume 0,
       Call (storea + 75000)] =
    \<lparr>mgr = \<lparr>token = Some tok, expiresAt = Some (storea + 70000), refreshing = Some 1\<rparr>,
     ops = [Settled (Fulfilled tok), Pending],
     callers = [Finished (Fulfilled tok), Awaiting 1]\<rparr>"
proof -
  have "exec (cold :: 'e world)
      [Call calla, FetchDone 0 (Inr \<lparr>access_token = tok, expires_in = 100\<rparr>) storea, Resume 0,
       Call (storea + 75000)] =
     step (exec (cold :: 'e world)
      [Call calla, FetchDone 0 (Inr \<lparr>access_token = tok, expires_in = 100\<rparr>) storea, Resume 0])
       (Call (storea + 75000))"
    by (simp add: exec_def)
  also have "\<dots> = \<lparr>mgr = \<lparr>token = Some tok, expiresAt = Some (storea + 70000), refreshing = Some 1\<rparr>,
     ops = [Settled (Fulfilled tok), Pending],
     callers = [Finished (Fulfilled tok), Awaiting 1]\<rparr>"
    by (simp only: first_call_cold) (simp add: getToken_call_def getToken_path_def cache_valid_def)
  finally show ?thesis .
qed

text \<open>
  Claim C3 (cache hit and expiry buffer). An invocation returns the cached token
  at once, with no fetch, exactly when a non-empty token is stored (line 10 tests
  the string's truthiness) and the clock reads strictly less than
  \<^verbatim>\<open>expiresAt\<close>; otherwise it joins the promise in flight or calls one fetch. A
  fulfilled fetch resumed at clock reading \<open>stored\<close> stores
  \<open>stored + expires_in * 1000 - 30000\<close>. With \<open>expires_in = 3600\<close> a second
  invocation earlier than 3570 seconds after the token was stored leaves the
  number of fetches at one; with \<open>expires_in = 100\<close> an invocation 75 seconds
  after the token was stored calls a second fetch.
\<close>

theorem cache_hit_and_expiry_buffer:
  fixes w :: "'e world"
  shows
  "(getToken_path (mgr w) now = Hit t \<longleftrightarrow>
      token (mgr w) = Some t \<and> t \<noteq> [] \<and> (\<exists>e. expiresAt (mgr w) = Some e \<and> now < e)) \<and>
   (getToken_path (mgr w) now = Hit t \<longrightarrow>
      getToken_call w now = w\<lparr>callers := callers w @ [Returned t]\<rparr> \<and>
      fetches (getToken_call w now) = fetches w) \<and>
   ((\<forall>t. getToken_path (mgr w) now \<noteq> Hit t) \<longrightarrow>
      (\<exists>p. getToken_call w now = w\<lparr>callers := callers w @ [Joined p]\<rparr>) \<or>
      fetches (getToken_call w now) = Suc (fetches w)) \<and>
   (p < length (ops w) \<and> ops w ! p = Pending \<longrightarrow>
      token (mgr (refresh_resume w p (Inr res) stored)) = Some (access_token res) \<and>
      expiresAt (mgr (refresh_resume w p (Inr res) stored)) =
        Some (stored + expires_in res * 1000 - 30000)) \<and>
   (tok \<noteq> [] \<and> callb < storea + 3570000 \<longrightarrow>
      fetches (exec (cold :: 'e world)
        [Call calla, FetchDone 0 (Inr \<lparr>access_token = tok, expires_in = 3600\<rparr>) storea, Resume 0,
         Call callb]) = 1 \<and>
      callers (exec (cold :: 'e world)
        [Call calla, FetchDone 0 (Inr \<lparr>access_token = tok, expires_in = 3600\<rparr>) storea, Resume 0,
         Call callb]) = [Finished (Fulfilled tok), Returned tok]) \<and>
   fetches (exec (cold :: 'e world)
        [Call calla, FetchDone 0 (Inr \<lparr>access_token = tok, expires_in = 100\<rparr>) storea, Resume 0,
         Call (storea + 75000)]) = 2 \<and>
   outstanding (exec (cold :: 'e world)
        [Call calla, FetchDone 0 (Inr \<lparr>access_token = tok, expires_in = 100\<rparr>) storea, Resume 0,
         Call (storea + 75000)]) = 1"
proof -
  have a: "getToken_path (mgr w) now = Hit t \<longleftrightarrow>
      token (mgr w) = Some t \<and> t \<noteq> [] \<and> (\<exists>e. expiresAt (mgr w) = Some e \<and> now < e)"
    by (rule hit_iff)
  have b: "getToken_path (mgr w) now = Hit t \<longrightarrow>
      getToken_call w now = w\<lparr>callers := callers w @ [Returned t]\<rparr> \<and>
      fetches (getToken_call w now) = fetches w"
    by (simp add: hit_returns fetches_def)
  have c: "(\<forall>t. getToken_path (mgr w) now \<noteq> Hit t) \<longrightarrow>
      (\<exists>p. getToken_call w now = w\<lparr>callers := callers w @ [Joined p]\<rparr>) \<or>
      fetches (getToken_call w now) = Suc (fetches w)"
    using miss_fetches_or_joins[of w now] by blast
  have d: "p < length (ops w) \<and> ops w ! p = Pending \<longrightarrow>
      token (mgr (refresh_resume w p (Inr res) stored)) = Some (access_token res) \<and>
      expiresAt (mgr (refresh_resume w p (Inr res) stored)) =
        Some (stored + expires_in res * 1000 - 30000)"
    using refresh_stores[of p w res stored] by blast
  have e: "tok \<noteq> [] \<and> callb < storea + 3570000 \<longrightarrow>
      fetches (exec (cold :: 'e world)
        [Call calla, FetchDone 0 (Inr \<lparr>access_token = tok, expires_in = 3600\<rparr>) storea, Resume 0,
         Call callb]) = 1 \<and>
      callers (exec (cold :: 'e world)
        [Call calla, FetchDone 0 (Inr \<lparr>access_token = tok, expires_in = 3600\<rparr>) storea, Resume 0,
         Call callb]) = [Finished (Fulfilled tok), Returned tok]"
    by (simp add: two_calls_3600 fetches_def)
  have f: "fetches (exec (cold :: 'e world)
        [Call calla, FetchDone 0 (Inr \<lparr>access_token = tok, expires_in = 100\<rparr>) storea, Resume 0,
         Call (storea + 75000)]) = 2"
    by (simp only: second_fetch_100) (simp add: fetches_def)
  have g: "outstanding (exec (cold :: 'e world)
        [Call calla, FetchDone 0 (Inr \<lparr>access_token = tok, expires_in = 100\<rparr>) storea, Resume 0,
         Call (storea + 75000)]) = 1"
    by (simp only: second_fetch_100) (simp add: outstanding_def)
  from a b c d e f g show ?thesis by blast
qed

theorem cache_hit_and_expiry_buffer_witness:
  "getToken_path \<lparr>token = Some ''tok'', expiresAt = Some 100, refreshing = None\<rparr> 99 = Hit ''tok'' \<and>
   fetches (getToken_call
      (\<lparr>mgr = \<lparr>token = Some ''tok'', expiresAt = Some 100, refreshing = None\<rparr>,
        ops = [Settled (Fulfilled ''tok'')], callers = []\<rparr> :: string world) 99) = 1 \<and>
   getToken_path \<lparr>token = Some ''tok'', expiresAt = Some 100, refreshing = None\<rparr> 100 = Start \<and>
   fetches (getToken_call
      (\<lparr>mgr = \<lparr>token = Some ''tok'', expiresAt = Some 100, refreshing = None\<rparr>,
        ops = [Settled (Fulfilled ''tok'')], callers = []\<rparr> :: string world) 100) = 2 \<and>
   expiresAt (mgr (refresh_resume
      (\<lparr>mgr = \<lparr>token = None, expiresAt = None, refreshing = Some 0\<rparr>,
        ops = [Pending], callers = [Awaiting 0]\<rparr> :: string world) 0
      (Inr \<lparr>access_token = ''tok'', expires_in = 3600\<rparr>) 1000)) = Some 3571000 \<and>
   fetches (exec (cold :: string world)
        [Call 0, FetchDone 0 (Inr \<lparr>access_token = ''cached-token'', expires_in = 3600\<rparr>) 0,
         Resume 0, Call 3569999]) = 1 \<and>
   fetches (exec (cold :: string world)
        [Call 0, FetchDone 0 (Inr \<lparr>access_token = ''token-1'', expires_in = 100\<rparr>) 0,
         Resume 0, Call (0 + 75000)]) = 2"
  using
    cache_hit_and_expiry_buffer[where ?'e = string and
      w = "\<lparr>mgr = \<lparr>token = Some ''tok'', expiresAt = Some 100, refreshing = None\<rparr>,
        ops = [Settled (Fulfilled ''tok'')], callers = []\<rparr>" and now = 99 and t = "''tok''"
      and tok = "''cached-token''" and calla = 0 and storea = 0 and callb = 3569999]
    cache_hit_and_expiry_buffer[where ?'e = string and
      w = "\<lparr>mgr = \<lparr>token = Some ''tok'', expiresAt = Some 100, refreshing = None\<rparr>,
        ops = [Settled (Fulfilled ''tok'')], callers = []\<rparr>" and now = 100
      and tok = "''token-1''" and calla = 0 and storea = 0]
    cache_hit_and_expiry_buffer[where ?'e = string and
      w = "\<lparr>mgr = \<lparr>token = None, expiresAt = None, refreshing = Some 0\<rparr>,
        ops = [Pending], callers = [Awaiting 0]\<rparr>" and p = 0 and stored = 1000
      and res = "\<lparr>access_token = ''tok'', expires_in = 3600\<rparr>"]
  by (simp add: getToken_path_def cache_valid_def getToken_call_def fetches_def)

lemma short_expiry_not_valid:
  assumes "expires_in res \<le> 30" "stored \<le> now"
    and "expiresAt m = Some (stored + expires_in res * 1000 - 30000)"
  shows "\<not> cache_valid m now"
  using assms by (auto simp: cache_valid_def split: option.splits)

subsection \<open>A token that is expired when it is stored\<close>

lemma cache_valid_refreshing: "cache_valid (m\<lparr>refreshing := x\<rparr>) now = cache_valid m now"
  by (cases "token m") (simp_all add: cache_valid_def)

lemma short_store_inv_call:
  assumes "short_store_inv n p c tok now v"
  shows "short_store_inv n p c tok now (getToken_call v t)"
proof (cases "getToken_path (mgr v) t")
  case (Hit x)
  with assms show ?thesis
    by (auto simp: short_store_inv_def getToken_call_def nth_append split: option.splits)
next
  case (Join q)
  with assms show ?thesis
    by (auto simp: short_store_inv_def getToken_call_def nth_append split: option.splits)
next
  case Start
  with assms show ?thesis
    by (auto simp: short_store_inv_def getToken_call_def nth_append cache_valid_refreshing
        split: option.splits)
qed

lemma short_store_inv_fetch:
  assumes i: "short_store_inv n p c tok now v" and s: "short_lived now (FetchDone q r t)"
  shows "short_store_inv n p c tok now (refresh_resume v q r t)"
proof (cases "q < length (ops v) \<and> ops v ! q = Pending")
  case False
  with i show ?thesis by (auto simp: refresh_resume_def)
next
  case True
  with i have qp: "q \<noteq> p" by (auto simp: short_store_inv_def)
  show ?thesis
  proof (cases r)
    case (Inl e)
    with True i qp show ?thesis
      by (auto simp: short_store_inv_def refresh_resume_def split: option.splits)
  next
    case (Inr res)
    with s have "expires_in res \<le> 30" "t \<le> now" by simp_all
    then have "\<not> cache_valid ((mgr v)\<lparr>token := Some (access_token res),
        expiresAt := Some (t + expires_in res * 1000 - 30000)\<rparr>) now"
      by (intro short_expiry_not_valid[of res t]) simp_all
    with True i qp Inr show ?thesis
      by (auto simp: short_store_inv_def refresh_resume_def split: option.splits)
  qed
qed

lemma short_store_inv_resume:
  assumes i: "short_store_inv n p c tok now v"
  shows "short_store_inv n p c tok now (getToken_resume v d)"
proof (cases "d < length (callers v)")
  case False
  with i show ?thesis by (simp add: getToken_resume_def)
next
  case d: True
  show ?thesis
  proof (cases "callers v ! d")
    case (Awaiting q)
    show ?thesis
    proof (cases "q < length (ops v)")
      case False
      with i d Awaiting show ?thesis by (simp add: getToken_resume_def)
    next
      case q: True
      show ?thesis
      proof (cases "ops v ! q")
        case Pending
        with i d Awaiting q show ?thesis by (simp add: getToken_resume_def)
      next
        case (Settled o')
        show ?thesis
        proof (cases o')
          case (Fulfilled x)
          with i d Awaiting q Settled show ?thesis
            by (simp add: short_store_inv_def getToken_resume_def cache_valid_refreshing)
        next
          case (Rejected e)
          have "d \<noteq> c" if "refreshing (mgr v) = Some p" "callers v ! c = Awaiting p"
          proof
            assume "d = c"
            with that Awaiting have "q = p" by simp
            with i Settled Rejected show False by (simp add: short_store_inv_def)
          qed
          with i d Awaiting q Settled Rejected show ?thesis
            by (auto simp: short_store_inv_def getToken_resume_def split: option.splits)
        qed
      qed
    qed
  qed (use i d in \<open>simp_all add: getToken_resume_def\<close>)
qed

lemma short_store_inv_exec:
  "short_store_inv n p c tok now v \<Longrightarrow> list_all (short_lived now) es \<Longrightarrow>
   short_store_inv n p c tok now (exec v es)"
proof (induction es arbitrary: v)
  case Nil
  then show ?case by (simp add: exec_Nil)
next
  case (Cons ev es)
  from Cons.prems have s: "short_lived now ev" and r: "list_all (short_lived now) es"
    by simp_all
  have "short_store_inv n p c tok now (step v ev)"
  proof (cases ev)
    case (Call t)
    with Cons.prems(1) show ?thesis by (simp add: short_store_inv_call)
  next
    case (FetchDone q r t)
    with Cons.prems(1) s show ?thesis by (simp add: short_store_inv_fetch)
  next
    case (Resume d)
    with Cons.prems(1) show ?thesis by (simp add: short_store_inv_resume)
  qed
  from Cons.IH[OF this r] show ?case by (simp add: exec_Cons)
qed

lemma short_store_inv_path:
  assumes "short_store_inv n p c tok now v"
  shows "(getToken_path (mgr v) now = Start \<and>
          fetches (getToken_call v now) = Suc (fetches v)) \<or>
         (getToken_path (mgr v) now = Join p \<and> callers v ! c = Awaiting p \<and>
          resolved v (Joined p) = Some (Fulfilled tok) \<and>
          fetches (getToken_call v now) = fetches v) \<or>
         (\<exists>q. getToken_path (mgr v) now = Join q \<and> n \<le> q \<and> q < length (ops v) \<and>
          fetches (getToken_call v now) = fetches v)"
  using assms
  by (auto simp: short_store_inv_def getToken_path_def getToken_call_def fetches_def
      resolved_def split: option.splits)

lemma short_store_inv_init:
  assumes short: "expires_in res \<le> 30"
    and p: "p < length (ops w)" "ops w ! p = Pending"
    and c: "c < length (callers w)" "callers w ! c = Awaiting p"
    and r: "refreshing (mgr w) = Some p"
    and now: "stored \<le> now"
  shows "short_store_inv (length (ops w)) p c (access_token res) now (refresh_resume w p (Inr res) stored)"
proof -
  have "\<not> cache_valid (mgr (refresh_resume w p (Inr res) stored)) now"
    using short now p by (intro short_expiry_not_valid[of res stored]) (simp_all add: refresh_stores)
  with p c r show ?thesis
    by (simp add: short_store_inv_def) (simp add: refresh_resume_def)
qed

text \<open>
  Claim C10 as stated fails: with \<open>expires_in = 30\<close>, an invocation made after
  the token was stored and before the invocation that started the refresh is
  resumed (line 21 has not yet cleared \<^verbatim>\<open>refreshing\<close>) finds the settled
  promise of that refresh on line 14 and returns it. It resolves to the
  short-lived token; no new fetch is made, and none is outstanding to join.
\<close>

theorem short_lived_token_joined_counterexample:
  "expiresAt (mgr (exec (cold :: string world)
      [Call 0, FetchDone 0 (Inr \<lparr>access_token = ''tok'', expires_in = 30\<rparr>) 1000])) = Some 1000 \<and>
   exec (cold :: string world)
      [Call 0, FetchDone 0 (Inr \<lparr>access_token = ''tok'', expires_in = 30\<rparr>) 1000, Call 1000] =
     \<lparr>mgr = \<lparr>token = Some ''tok'', expiresAt = Some 1000, refreshing = Some 0\<rparr>,
      ops = [Settled (Fulfilled ''tok'')],
      callers = [Awaiting 0, Joined 0]\<rparr> \<and>
   fetches (exec (cold :: string world)
      [Call 0, FetchDone 0 (Inr \<lparr>access_token = ''tok'', expires_in = 30\<rparr>) 1000, Call 1000]) = 1 \<and>
   outstanding (exec (cold :: string world)
      [Call 0, FetchDone 0 (Inr \<lparr>access_token = ''tok'', expires_in = 30\<rparr>) 1000, Call 1000]) = 0 \<and>
   resolved (exec (cold :: string world)
      [Call 0, FetchDone 0 (Inr \<lparr>access_token = ''tok'', expires_in = 30\<rparr>) 1000, Call 1000])
      (Joined 0) = Some (Fulfilled ''tok'')"
  by (simp add: exec_def cold_def getToken_call_def getToken_path_def cache_valid_def
      refresh_resume_def fetches_def outstanding_def resolved_def)

text \<open>
  Claim C10, amended. When the fetch of the refresh in flight returns
  \<open>expires_in \<le> 30\<close>, the expiry stored is not later than the clock reading at
  which it is stored. For invocations at a clock reading not earlier than that
  one: an invocation made right after the store, before the one that started
  the refresh is resumed, joins the settled promise of that refresh and gets
  the short-lived token; no fetch is made. Once the starter is resumed,
  \<^verbatim>\<open>refreshing\<close> is empty and the next invocation calls a new fetch. After any
  further events in which every fetch that succeeds also returns
  \<open>expires_in \<le> 30\<close>, not later than the invocation's clock reading, an
  invocation never returns the cached token on line 11: it calls a new fetch,
  or joins the refresh of the short-lived token and gets that token without a
  fetch (only while the starter is not resumed), or joins a refresh started
  after the token was stored.
\<close>

theorem short_lived_token_not_cached:
  fixes w :: "'e world" and p :: nat and res :: fetch_result and stored :: int
  defines "ws \<equiv> refresh_resume w p (Inr res) stored"
  assumes short: "expires_in res \<le> 30"
    and p: "p < length (ops w)" "ops w ! p = Pending"
    and c: "c < length (callers w)" "callers w ! c = Awaiting p"
    and r: "refreshing (mgr w) = Some p"
    and es: "list_all (short_lived now) es"
    and now: "stored \<le> now"
  shows "(\<exists>e. expiresAt (mgr ws) = Some e \<and> e \<le> stored) \<and>
    getToken_call ws now = ws\<lparr>callers := callers ws @ [Joined p]\<rparr> \<and>
    resolved ws (Joined p) = Some (Fulfilled (access_token res)) \<and>
    fetches (getToken_call ws now) = fetches w \<and>
    refreshing (mgr (getToken_resume ws c)) = None \<and>
    getToken_path (mgr (getToken_resume ws c)) now = Start \<and>
    fetches (getToken_call (getToken_resume ws c) now) = Suc (fetches w) \<and>
    (\<forall>t. getToken_path (mgr (exec ws es)) now \<noteq> Hit t) \<and>
    ((getToken_path (mgr (exec ws es)) now = Start \<and>
      fetches (getToken_call (exec ws es) now) = Suc (fetches (exec ws es))) \<or>
     (getToken_path (mgr (exec ws es)) now = Join p \<and>
      callers (exec ws es) ! c = Awaiting p \<and>
      resolved (exec ws es) (Joined p) = Some (Fulfilled (access_token res)) \<and>
      fetches (getToken_call (exec ws es) now) = fetches (exec ws es)) \<or>
     (\<exists>q. getToken_path (mgr (exec ws es)) now = Join q \<and>
        length (ops w) \<le> q \<and> q < length (ops (exec ws es)) \<and>
        fetches (getToken_call (exec ws es) now) = fetches (exec ws es)))"
proof -
  have ws: "ws = w\<lparr>mgr := (mgr w)\<lparr>token := Some (access_token res),
                                expiresAt := Some (stored + expires_in res * 1000 - 30000)\<rparr>,
               ops := (ops w)[p := Settled (Fulfilled (access_token res))]\<rparr>"
    using p by (simp add: ws_def refresh_resume_def)
  have nv: "\<not> cache_valid (mgr ws) now"
    using short now by (intro short_expiry_not_valid[of res stored]) (simp_all add: ws)
  have a: "\<exists>e. expiresAt (mgr ws) = Some e \<and> e \<le> stored"
    using short by (simp add: ws)
  have pa: "getToken_path (mgr ws) now = Join p"
    using nv r by (simp add: getToken_path_def) (simp add: ws)
  then have b: "getToken_call ws now = ws\<lparr>callers := callers ws @ [Joined p]\<rparr>"
    by (simp add: getToken_call_def)
  have b1: "resolved ws (Joined p) = Some (Fulfilled (access_token res))"
    using p by (simp add: resolved_def ws)
  have b2: "fetches (getToken_call ws now) = fetches w"
    by (simp add: b fetches_def) (simp add: ws)
  have wr: "getToken_resume ws c = ws\<lparr>mgr := (mgr ws)\<lparr>refreshing := None\<rparr>,
      callers := (callers ws)[c := Finished (Fulfilled (access_token res))]\<rparr>"
    using p c by (simp add: getToken_resume_def ws)
  then have d: "refreshing (mgr (getToken_resume ws c)) = None" by simp
  have "\<not> cache_valid (mgr (getToken_resume ws c)) now"
    using nv by (simp add: wr cache_valid_refreshing)
  with d have d1: "getToken_path (mgr (getToken_resume ws c)) now = Start"
    by (simp add: getToken_path_def)
  then have d2: "fetches (getToken_call (getToken_resume ws c) now) = Suc (fetches w)"
    by (simp add: getToken_call_def fetches_def wr) (simp add: ws)
  have i: "short_store_inv (length (ops w)) p c (access_token res) now (exec ws es)"
    unfolding ws_def by (rule short_store_inv_exec[OF short_store_inv_init[OF short p c r now] es])
  then have e: "\<forall>t. getToken_path (mgr (exec ws es)) now \<noteq> Hit t"
    by (simp add: short_store_inv_def getToken_path_def split: option.splits)
  note f = short_store_inv_path[OF i]
  from a b b1 b2 d d1 d2 e f show ?thesis by blast
qed

theorem short_lived_token_not_cached_witness:
  "expires_in \<lparr>access_token = ''tok'', expires_in = 30\<rparr> \<le> 30 \<and>
   list_all (short_lived 2000)
     [Resume 0, Call 1000,
      FetchDone 1 (Inr \<lparr>access_token = ''tok2'', expires_in = 10\<rparr>) 1500 :: string event] \<and>
   exec (refresh_resume
      (\<lparr>mgr = \<lparr>token = None, expiresAt = None, refreshing = Some 0\<rparr>,
        ops = [Pending], callers = [Awaiting 0]\<rparr> :: string world) 0
      (Inr \<lparr>access_token = ''tok'', expires_in = 30\<rparr>) 1000)
     [Resume 0, Call 1000, FetchDone 1 (Inr \<lparr>access_token = ''tok2'', expires_in = 10\<rparr>) 1500] =
     \<lparr>mgr = \<lparr>token = Some ''tok2'', expiresAt = Some (- 18500), refreshing = Some 1\<rparr>,
      ops = [Settled (Fulfilled ''tok''), Settled (Fulfilled ''tok2'')],
      callers = [Finished (Fulfilled ''tok''), Awaiting 1]\<rparr> \<and>
   getToken_path \<lparr>token = Some ''tok2'', expiresAt = Some (- 18500), refreshing = Some 1\<rparr> 2000 =
     Join 1 \<and>
   fetches (getToken_call (getToken_resume (refresh_resume
      (\<lparr>mgr = \<lparr>token = None, expiresAt = None, refreshing = Some 0\<rparr>,
        ops = [Pending], callers = [Awaiting 0]\<rparr> :: string world) 0
      (Inr \<lparr>access_token = ''tok'', expires_in = 30\<rparr>) 1000) 0) 2000) = 2"
  using short_lived_token_not_cached[where ?'e = string and
      res = "\<lparr>access_token = ''tok'', expires_in = 30\<rparr>" and p = 0 and c = 0 and
      stored = 1000 and now = 2000 and
      es = "[Resume 0, Call 1000,
        FetchDone 1 (Inr \<lparr>access_token = ''tok2'', expires_in = 10\<rparr>) 1500]" and
      w = "\<lparr>mgr = \<lparr>token = None, expiresAt = None, refreshing = Some 0\<rparr>,
        ops = [Pending], callers = [Awaiting 0]\<rparr>"]
  by (simp add: exec_def refresh_resume_def getToken_resume_def fetches_def cache_valid_def
      getToken_call_def getToken_path_def)

section \<open>Properties of the request mapper\<close>

text \<open>
  Claim C8 as stated fails: two invocations on the same request and the same
  shipper account, in which line 110 draws two different identifiers, return
  different documents.
\<close>

theorem toWire_differs_between_runs:
  "mapToUpsRequest String_whole ''1b4e28ba-2fa1-41d2-883f-0016d3cca427'' sample_request ''A1B2C3'' \<noteq>
   mapToUpsRequest String_whole ''6fa459ea-ee8a-4ca4-894e-db77e160355e'' sample_request ''A1B2C3''"
  by (simp add: mapToUpsRequest_def)

text \<open>
  Claim C8, amended. \<^verbatim>\<open>mapToUpsRequest\<close> keeps no state and does no I/O, but it
  reads the random source once: two invocations on the same request and shipper
  account return documents with the same \<^verbatim>\<open>Shipment\<close> block and the same
  \<^verbatim>\<open>CustomerContext\<close>, each carrying the identifier drawn in that invocation,
  and the two documents are equal exactly when the two identifiers are.
\<close>

theorem toWire_equal_up_to_transaction_id:
  "(mapToUpsRequest String uuid request shipperNumber =
      mapToUpsRequest String uuid' request shipperNumber \<longleftrightarrow> uuid = uuid') \<and>
   shipment_of (mapToUpsRequest String uuid request shipperNumber) =
     shipment_of (mapToUpsRequest String uuid' request shipperNumber) \<and>
   transaction_reference_of (mapToUpsRequest String uuid request shipperNumber) ''CustomerContext'' =
     transaction_reference_of (mapToUpsRequest String uuid' request shipperNumber) ''CustomerContext'' \<and>
   transaction_reference_of (mapToUpsRequest String uuid request shipperNumber)
     ''TransactionIdentifier'' = Some (JStr uuid)"
  by (simp add: mapToUpsRequest_def shipment_of_def transaction_reference_of_def)

section \<open>Properties of the response parser\<close>

lemma descriptions_Nil: "descriptions [] = []"
  by (simp add: descriptions_def map_filter_simps)

lemma descriptions_Cons:
  "descriptions (a # xs) =
     (case getp (Some a) ''Description'' of
        None \<Rightarrow> descriptions xs
      | Some d \<Rightarrow> if truthy (Some d) then d # descriptions xs else descriptions xs)"
  by (simp add: descriptions_def map_filter_simps split: option.splits)

lemma push_descriptions_no_null:
  "JNull \<notin> set xs \<Longrightarrow> push_descriptions acc xs = Inr (acc @ descriptions xs)"
proof (induction xs arbitrary: acc)
  case Nil
  then show ?case by (simp add: descriptions_Nil)
next
  case (Cons a xs)
  then have a: "a \<noteq> JNull" and xs: "JNull \<notin> set xs" by auto
  show ?case
  proof (cases "getp (Some a) ''Description''")
    case None
    with a Cons.IH[OF xs] show ?thesis by (simp add: descriptions_Cons)
  next
    case (Some d)
    with a Cons.IH[OF xs] show ?thesis by (simp add: descriptions_Cons)
  qed
qed

lemma push_descriptions_null:
  "JNull \<in> set xs \<Longrightarrow> \<exists>e. push_descriptions acc xs = Inl e"
proof (induction xs arbitrary: acc)
  case Nil
  then show ?case by simp
next
  case (Cons a xs)
  show ?case
  proof (cases "a = JNull")
    case True
    then show ?thesis by simp
  next
    case False
    with Cons.prems have "JNull \<in> set xs" by simp
    from Cons.IH[OF this] False show ?thesis
      by (cases "getp (Some a) ''Description''") simp_all
  qed
qed

lemma push_descriptions_Inr: "push_descriptions acc xs = Inr r \<Longrightarrow> JNull \<notin> set xs"
  using push_descriptions_null[of xs acc] by auto

lemmas parse_defs = parseFloat_def parse_unsigned_def space_len_def white_space_def is_digit_def
  digits_val_def digit_val_def exponent_def pow10_def Number_value_def

lemma parseFloat_zero: "parseFloat ''0'' = Num 0"
  by (simp add: parse_defs)

lemma not_stringable_truthy: "\<not> stringable j \<Longrightarrow> truthy (Some j)"
  by (cases j) simp_all

lemma not_convertible_truthy: "\<not> convertible v \<Longrightarrow> truthy v"
  by (cases v) (simp_all add: convertible_def not_stringable_truthy)

lemma parseFloat_arg_convertible: "convertible v \<Longrightarrow> parseFloat_arg v = Inr (parsed_arg v)"
  by (cases v) (simp_all add: convertible_def parseFloat_arg_def parsed_arg_def parseFloat_value_def)

lemma parseFloat_arg_Inr: "parseFloat_arg v = Inr n \<Longrightarrow> convertible v"
  by (cases v)
    (simp_all add: convertible_def parseFloat_arg_def parseFloat_value_def split: if_splits)

lemma amount_convertible:
  "convertible v \<Longrightarrow>
   parseFloat_arg (or_else v (Some (JStr ''0''))) = Inr (if truthy v then parsed_arg v else Num 0)"
  by (simp add: or_else_def parseFloat_arg_convertible)
    (simp add: parseFloat_arg_def parseFloat_value_def parseFloat_zero)

lemma amount_Inr:
  assumes "parseFloat_arg (or_else v (Some (JStr ''0''))) = Inr n"
  shows "convertible v"
proof (cases "truthy v")
  case True
  then show ?thesis using assms parseFloat_arg_Inr[of v n] by (simp add: or_else_def)
next
  case False
  then show ?thesis using not_convertible_truthy[of v] by blast
qed

lemma charge_convertible: "convertible v \<Longrightarrow> charge v = Inr (charge_of v)"
  by (simp add: charge_def charge_of_def parseFloat_arg_convertible)

lemma charge_Inr: "charge v = Inr n \<Longrightarrow> convertible v"
  using not_convertible_truthy[of v] parseFloat_arg_Inr[of v]
  by (auto simp: charge_def split: if_splits sum.splits)

lemma getp_or_else_empty: "getp (or_else v (Some (JObj []))) k = getp v k"
proof (cases v)
  case None
  then show ?thesis by (simp add: or_else_def)
next
  case (Some j)
  then show ?thesis by (cases j) (simp_all add: or_else_def)
qed

text \<open>
  The body of \<^verbatim>\<open>parseUpsResponse\<close> after the two checks, as the sequence of
  the five steps that can throw.
\<close>

lemma parseUpsResponse_steps:
  assumes RS: "RS = getp (getp resp ''RateResponse'') ''RatedShipment''"
    and RP: "RP = first_if_array (getp RS ''RatedPackage'')"
    and rr: "truthy (getp resp ''RateResponse'')" and rs: "truthy RS"
  shows "parseUpsResponse resp =
    (case parseFloat_arg (or_else (getp (getp RS ''TotalCharges'') ''MonetaryValue'')
            (Some (JStr ''0''))) of
       Inl e \<Rightarrow> Inl e
     | Inr a \<Rightarrow>
    (case charge (getp (getp RP ''BaseServiceCharge'') ''MonetaryValue'') of
       Inl e \<Rightarrow> Inl e
     | Inr b \<Rightarrow>
    (case charge (getp (getp RP ''TransportationCharges'') ''MonetaryValue'') of
       Inl e \<Rightarrow> Inl e
     | Inr t \<Rightarrow>
    (case push_descriptions [] (alert_list (getp RS ''RatedShipmentAlert'')) of
       Inl e \<Rightarrow> Inl e
     | Inr sa \<Rightarrow>
    (case push_descriptions sa
            (alert_list (getp (getp (getp resp ''RateResponse'') ''Response'') ''Alert'')) of
       Inl e \<Rightarrow> Inl e
     | Inr al \<Rightarrow>
         Inr [\<lparr>carrier = ''UPS'',
               serviceCode = or_else (getp (getp RS ''Service'') ''Code'') (Some (JStr [])),
               serviceName = or_else (or_else (getp (getp RS ''Service'') ''Description'')
                  (Some (JStr []))) None,
               amount = a,
               currency = or_else (getp (getp RS ''TotalCharges'') ''CurrencyCode'')
                  (Some (JStr ''USD'')),
               baseCharge = b,
               transportationCharge = t,
               alerts = (if al = [] then None else Some al)\<rparr>])))))"
  using rr rs unfolding RS RP
  by (simp add: parseUpsResponse_def Let_def getp_or_else_empty split: sum.splits)

lemma parseUpsResponse_ok:
  assumes RS: "RS = getp (getp resp ''RateResponse'') ''RatedShipment''"
    and RP: "RP = first_if_array (getp RS ''RatedPackage'')"
    and rr: "truthy (getp resp ''RateResponse'')" and rs: "truthy RS"
    and c1: "convertible (getp (getp RS ''TotalCharges'') ''MonetaryValue'')"
    and c2: "convertible (getp (getp RP ''BaseServiceCharge'') ''MonetaryValue'')"
    and c3: "convertible (getp (getp RP ''TransportationCharges'') ''MonetaryValue'')"
    and n1: "JNull \<notin> set (alert_list (getp RS ''RatedShipmentAlert''))"
    and n2: "JNull \<notin> set (alert_list (getp (getp (getp resp ''RateResponse'') ''Response'')
                ''Alert''))"
  shows "parseUpsResponse resp =
    Inr [\<lparr>carrier = ''UPS'',
          serviceCode = or_else (getp (getp RS ''Service'') ''Code'') (Some (JStr [])),
          serviceName = or_else (or_else (getp (getp RS ''Service'') ''Description'')
             (Some (JStr []))) None,
          amount = (if truthy (getp (getp RS ''TotalCharges'') ''MonetaryValue'')
             then parsed_arg (getp (getp RS ''TotalCharges'') ''MonetaryValue'') else Num 0),
          currency = or_else (getp (getp RS ''TotalCharges'') ''CurrencyCode'')
             (Some (JStr ''USD'')),
          baseCharge = charge_of (getp (getp RP ''BaseServiceCharge'') ''MonetaryValue''),
          transportationCharge =
             charge_of (getp (getp RP ''TransportationCharges'') ''MonetaryValue''),
          alerts = (if descriptions (alert_list (getp RS ''RatedShipmentAlert'')) @
                descriptions (alert_list (getp (getp (getp resp ''RateResponse'') ''Response'')
                  ''Alert'')) = []
            then None
            else Some (descriptions (alert_list (getp RS ''RatedShipmentAlert'')) @
                descriptions (alert_list (getp (getp (getp resp ''RateResponse'') ''Response'')
                  ''Alert''))))\<rparr>]"
  by (simp only: parseUpsResponse_steps[OF RS RP rr rs] amount_convertible[OF c1]
      charge_convertible[OF c2] charge_convertible[OF c3] push_descriptions_no_null[OF n1]
      push_descriptions_no_null[OF n2] sum.case append_Nil)

lemma parseUpsResponse_missing:
  "\<not> truthy (getp resp ''RateResponse'') \<Longrightarrow>
     parseUpsResponse resp = Inl (js_Error ''Invalid UPS response: missing RateResponse'')"
  "truthy (getp resp ''RateResponse'') \<Longrightarrow>
   \<not> truthy (getp (getp resp ''RateResponse'') ''RatedShipment'') \<Longrightarrow>
     parseUpsResponse resp = Inl (js_Error ''Invalid UPS response: missing RatedShipment'')"
  by (simp_all add: parseUpsResponse_def Let_def)

lemma parseUpsResponse_Inr:
  assumes p: "parseUpsResponse resp = Inr qs"
    and RS: "RS = getp (getp resp ''RateResponse'') ''RatedShipment''"
    and RP: "RP = first_if_array (getp RS ''RatedPackage'')"
  shows "truthy (getp resp ''RateResponse'')"
    and "truthy RS"
    and "convertible (getp (getp RS ''TotalCharges'') ''MonetaryValue'')"
    and "convertible (getp (getp RP ''BaseServiceCharge'') ''MonetaryValue'')"
    and "convertible (getp (getp RP ''TransportationCharges'') ''MonetaryValue'')"
    and "JNull \<notin> set (alert_list (getp RS ''RatedShipmentAlert''))"
    and "JNull \<notin> set (alert_list (getp (getp (getp resp ''RateResponse'') ''Response'')
                ''Alert''))"
proof -
  show rr: "truthy (getp resp ''RateResponse'')"
    using p parseUpsResponse_missing(1)[of resp] by auto
  show rs: "truthy RS"
    using p rr parseUpsResponse_missing(2)[of resp] unfolding RS by auto
  note st = parseUpsResponse_steps[OF RS RP rr rs]
  from p st obtain a where a: "parseFloat_arg (or_else (getp (getp RS ''TotalCharges'')
      ''MonetaryValue'') (Some (JStr ''0''))) = Inr a"
    by (auto split: sum.splits)
  then show "convertible (getp (getp RS ''TotalCharges'') ''MonetaryValue'')"
    by (rule amount_Inr)
  from p st a obtain b where b: "charge (getp (getp RP ''BaseServiceCharge'') ''MonetaryValue'')
      = Inr b"
    by (auto split: sum.splits)
  then show "convertible (getp (getp RP ''BaseServiceCharge'') ''MonetaryValue'')"
    by (rule charge_Inr)
  from p st a b obtain t where t: "charge (getp (getp RP ''TransportationCharges'')
      ''MonetaryValue'') = Inr t"
    by (auto split: sum.splits)
  then show "convertible (getp (getp RP ''TransportationCharges'') ''MonetaryValue'')"
    by (rule charge_Inr)
  from p st a b t obtain sa where sa: "push_descriptions []
      (alert_list (getp RS ''RatedShipmentAlert'')) = Inr sa"
    by (auto split: sum.splits)
  then show "JNull \<notin> set (alert_list (getp RS ''RatedShipmentAlert''))"
    by (rule push_descriptions_Inr)
  from p st a b t sa obtain al where "push_descriptions sa
      (alert_list (getp (getp (getp resp ''RateResponse'') ''Response'') ''Alert'')) = Inr al"
    by (auto split: sum.splits)
  then show "JNull \<notin> set (alert_list (getp (getp (getp resp ''RateResponse'') ''Response'')
                ''Alert''))"
    by (rule push_descriptions_Inr)
qed

lemma pow10_nonneg: "0 \<le> pow10 k"
  by (simp add: pow10_def)

lemma Number_value_nonneg: "0 \<le> x \<Longrightarrow> (\<exists>y. Number_value x = Num y \<and> 0 \<le> y) \<or> Number_value x = PosInf"
  by (auto simp: Number_value_def)

lemma white_space_heads: "\<forall>p \<in> set white_space. p \<noteq> [] \<and> \<not> is_digit (hd p)"
  by (simp add: white_space_def is_digit_def)

lemma digit_no_space:
  assumes "is_digit c"
  shows "space_len (c # s) = 0"
proof -
  have "\<not> prefix p (c # s)" if "p \<in> set white_space" for p
  proof -
    from that white_space_heads have h: "p \<noteq> [] \<and> \<not> is_digit (hd p)" by blast
    then obtain a r where "p = a # r" and "\<not> is_digit a"
      by (cases p) simp_all
    with assms show ?thesis by auto
  qed
  then have "find (\<lambda>p. prefix p (c # s)) white_space = None"
    by (simp add: find_None_iff)
  then show ?thesis by (simp add: space_len_def)
qed

lemma digit_not_sign: "is_digit c \<Longrightarrow> c \<noteq> CHR ''-'' \<and> c \<noteq> CHR ''+''"
  by (auto simp: is_digit_def)

lemma parseFloat_digit:
  assumes "is_digit c"
  shows "(\<exists>x. parseFloat (c # s) = Num x \<and> 0 \<le> x) \<or> parseFloat (c # s) = PosInf"
proof -
  from assms have pf: "parseFloat (c # s) = parse_unsigned (c # s)"
    using digit_no_space[OF assms] digit_not_sign[OF assms] by (simp add: parseFloat_def)
  from assms obtain x where x: "parse_unsigned (c # s) = Number_value x" and x0: "0 \<le> x"
    by (auto simp: parse_unsigned_def Let_def pow10_nonneg)
  from Number_value_nonneg[OF x0] x pf show ?thesis by simp
qed

lemma parseFloat_overflow: "parseFloat ''1e309'' = PosInf"
proof -
  have big: "(2::real) ^ 1024 - 2 ^ 970 \<le> 10 ^ 309" by simp
  have nv: "Number_value (10 ^ 309) = PosInf"
    using big by (simp add: Number_value_def del: power_numeral)
  have pre: "parseFloat ''1e309'' = Number_value (10 ^ 309)"
    by (simp add: parseFloat_def parse_unsigned_def space_len_def white_space_def is_digit_def
        digits_val_def digit_val_def exponent_def pow10_def del: power_numeral)
  show ?thesis by (simp only: pre nv)
qed

text \<open>
  White space beyond ASCII is skipped too: a no-break space (U+00A0) before
  the digits.
\<close>

lemma parseFloat_no_break_space: "parseFloat [CHR 0xC2, CHR 0xA0, CHR ''7''] = Num 7"
  by (simp add: parse_defs)

text \<open>
  Claim C7 as stated fails: in this reply the envelope and the rated shipment
  are present, and the per-shipment alert array holds a \<^verbatim>\<open>null\<close> entry; line
  231 throws a \<^verbatim>\<open>TypeError\<close> and no quote is returned.
\<close>

theorem fromWire_null_alert_counterexample:
  "truthy (getp (Some nullAlertResponse) ''RateResponse'') \<and>
   truthy (getp (getp (Some nullAlertResponse) ''RateResponse'') ''RatedShipment'') \<and>
   parseUpsResponse (Some nullAlertResponse) =
     Inl (js_TypeError (''Cannot read properties of null (reading '' @ [CHR 0x27] @
            ''Description'' @ [CHR 0x27] @ '')''))"
  by (simp add: nullAlertResponse_def parseUpsResponse_def alert_list_def or_else_def
      first_if_array_def charge_def parseFloat_arg_def parseFloat_value_def parseFloat_zero)

text \<open>
  It fails in a second way: in this reply the envelope and the rated shipment
  are present and there is no alert, and the monetary value of the total
  charge is the object \<^verbatim>\<open>{"toString": 1}\<close>; \<^verbatim>\<open>parseFloat\<close> on line 212 throws a
  \<^verbatim>\<open>TypeError\<close> when it converts the object to a string.
\<close>

lemma parseUpsResponse_toString_charge:
  "truthy (getp (Some toStringChargeResponse) ''RateResponse'') \<and>
   truthy (getp (getp (Some toStringChargeResponse) ''RateResponse'') ''RatedShipment'') \<and>
   parseUpsResponse (Some toStringChargeResponse) =
     Inl (js_TypeError ''Cannot convert object to primitive value'')"
  by (simp add: toStringChargeResponse_def parseUpsResponse_def or_else_def parseFloat_arg_def
      parseFloat_value_def)

text \<open>
  Claim C7, amended. For every reply whose envelope and rated shipment are
  present (truthy, the test of lines 198 and 203), whose three monetary values
  (of the total charge and of the rated package's base and transportation
  charges) convert to a string without throwing (none is an object with an own
  \<^verbatim>\<open>toString\<close> property or an array that holds one) and whose two alert arrays
  hold no \<^verbatim>\<open>null\<close> entry, \<^verbatim>\<open>parseUpsResponse\<close> returns a list of exactly one
  quote. Its amount is what \<^verbatim>\<open>parseFloat\<close> reads from the total charge's
  monetary value, and 0 when that value is absent (falsy); its currency is the
  reply's, and \<^verbatim>\<open>USD\<close> when absent; its base and transportation charges are
  what \<^verbatim>\<open>parseFloat\<close> reads from the rated package's values, \<^verbatim>\<open>undefined\<close>
  when the value is absent, read from the first entry only when the rated
  package is an array (from none when the array is empty); its alerts are the
  descriptions of the per-shipment alerts followed by those of the
  per-response alerts, and \<^verbatim>\<open>undefined\<close> when there is none, in particular
  when neither location is present.
\<close>

theorem fromWire_single_quote:
  fixes resp :: "json option"
  defines "RS \<equiv> getp (getp resp ''RateResponse'') ''RatedShipment''"
  defines "mv \<equiv> getp (getp RS ''TotalCharges'') ''MonetaryValue''"
  defines "cc \<equiv> getp (getp RS ''TotalCharges'') ''CurrencyCode''"
  defines "RP \<equiv> getp RS ''RatedPackage''"
  defines "bv \<equiv> getp (getp (first_if_array RP) ''BaseServiceCharge'') ''MonetaryValue''"
  defines "tv \<equiv> getp (getp (first_if_array RP) ''TransportationCharges'') ''MonetaryValue''"
  defines "shipment_alerts \<equiv> getp RS ''RatedShipmentAlert''"
  defines "response_alerts \<equiv> getp (getp (getp resp ''RateResponse'') ''Response'') ''Alert''"
  assumes rr: "truthy (getp resp ''RateResponse'')" and rs: "truthy RS"
    and c1: "convertible mv" and c2: "convertible bv" and c3: "convertible tv"
    and n1: "JNull \<notin> set (alert_list shipment_alerts)"
    and n2: "JNull \<notin> set (alert_list response_alerts)"
  shows "\<exists>q. parseUpsResponse resp = Inr [q] \<and>
    amount q = (if truthy mv then parsed_arg mv else Num 0) \<and>
    (\<forall>s. mv = Some (JStr s) \<and> s \<noteq> [] \<longrightarrow> amount q = parseFloat s) \<and>
    currency q = (if truthy cc then cc else Some (JStr ''USD'')) \<and>
    baseCharge q = charge_of bv \<and>
    transportationCharge q = charge_of tv \<and>
    (\<forall>s. bv = Some (JStr s) \<and> s \<noteq> [] \<longrightarrow> baseCharge q = Some (parseFloat s)) \<and>
    (\<forall>s. tv = Some (JStr s) \<and> s \<noteq> [] \<longrightarrow> transportationCharge q = Some (parseFloat s)) \<and>
    (\<not> truthy bv \<longrightarrow> baseCharge q = None) \<and>
    (\<not> truthy tv \<longrightarrow> transportationCharge q = None) \<and>
    (\<forall>x xs. RP = Some (JArr (x # xs)) \<longrightarrow>
       baseCharge q = charge_of (getp (getp (Some x) ''BaseServiceCharge'') ''MonetaryValue'') \<and>
       transportationCharge q =
         charge_of (getp (getp (Some x) ''TransportationCharges'') ''MonetaryValue'')) \<and>
    (RP = Some (JArr []) \<longrightarrow> baseCharge q = None \<and> transportationCharge q = None) \<and>
    ((\<forall>xs. RP \<noteq> Some (JArr xs)) \<longrightarrow>
       baseCharge q = charge_of (getp (getp RP ''BaseServiceCharge'') ''MonetaryValue'') \<and>
       transportationCharge q =
         charge_of (getp (getp RP ''TransportationCharges'') ''MonetaryValue'')) \<and>
    alerts q =
      (if descriptions (alert_list shipment_alerts) @ descriptions (alert_list response_alerts) = []
       then None
       else Some (descriptions (alert_list shipment_alerts) @
                  descriptions (alert_list response_alerts))) \<and>
    (shipment_alerts = None \<and> response_alerts = None \<longrightarrow> alerts q = None)"
proof -
  let ?q = "\<lparr>carrier = ''UPS'',
          serviceCode = or_else (getp (getp RS ''Service'') ''Code'') (Some (JStr [])),
          serviceName = or_else (or_else (getp (getp RS ''Service'') ''Description'')
             (Some (JStr []))) None,
          amount = (if truthy mv then parsed_arg mv else Num 0),
          currency = or_else cc (Some (JStr ''USD'')),
          baseCharge = charge_of bv,
          transportationCharge = charge_of tv,
          alerts = (if descriptions (alert_list shipment_alerts) @
                descriptions (alert_list response_alerts) = []
            then None
            else Some (descriptions (alert_list shipment_alerts) @
                descriptions (alert_list response_alerts)))\<rparr>"
  have p: "parseUpsResponse resp = Inr [?q]"
    using parseUpsResponse_ok[of RS resp "first_if_array RP"] rr rs c1 c2 c3 n1 n2
    unfolding RS_def RP_def mv_def cc_def bv_def tv_def shipment_alerts_def response_alerts_def
    by simp
  have a: "amount ?q = (if truthy mv then parsed_arg mv else Num 0)" by simp
  have a1: "\<forall>s. mv = Some (JStr s) \<and> s \<noteq> [] \<longrightarrow> amount ?q = parseFloat s"
    by (simp add: parsed_arg_def)
  have c: "currency ?q = (if truthy cc then cc else Some (JStr ''USD''))"
    by (simp add: or_else_def)
  have b: "baseCharge ?q = charge_of bv" and t: "transportationCharge ?q = charge_of tv"
    by simp_all
  have bs: "\<forall>s. bv = Some (JStr s) \<and> s \<noteq> [] \<longrightarrow> baseCharge ?q = Some (parseFloat s)"
    by (simp add: charge_of_def parsed_arg_def)
  have ts: "\<forall>s. tv = Some (JStr s) \<and> s \<noteq> [] \<longrightarrow> transportationCharge ?q = Some (parseFloat s)"
    by (simp add: charge_of_def parsed_arg_def)
  have bn: "\<not> truthy bv \<longrightarrow> baseCharge ?q = None"
    and tn: "\<not> truthy tv \<longrightarrow> transportationCharge ?q = None"
    by (simp_all add: charge_of_def)
  have b1: "\<forall>x xs. RP = Some (JArr (x # xs)) \<longrightarrow>
       baseCharge ?q = charge_of (getp (getp (Some x) ''BaseServiceCharge'') ''MonetaryValue'') \<and>
       transportationCharge ?q =
         charge_of (getp (getp (Some x) ''TransportationCharges'') ''MonetaryValue'')"
    by (simp add: first_if_array_def bv_def tv_def)
  have b2: "RP = Some (JArr []) \<longrightarrow> baseCharge ?q = None \<and> transportationCharge ?q = None"
    by (simp add: first_if_array_def charge_of_def bv_def tv_def)
  have b3: "(\<forall>xs. RP \<noteq> Some (JArr xs)) \<longrightarrow>
       baseCharge ?q = charge_of (getp (getp RP ''BaseServiceCharge'') ''MonetaryValue'') \<and>
       transportationCharge ?q =
         charge_of (getp (getp RP ''TransportationCharges'') ''MonetaryValue'')"
    by (auto simp: first_if_array_def bv_def tv_def split: option.splits json.splits)
  have al: "alerts ?q =
      (if descriptions (alert_list shipment_alerts) @ descriptions (alert_list response_alerts) = []
       then None
       else Some (descriptions (alert_list shipment_alerts) @
                  descriptions (alert_list response_alerts)))"
    by simp
  have al0: "shipment_alerts = None \<and> response_alerts = None \<longrightarrow> alerts ?q = None"
    by (simp add: alert_list_def descriptions_Nil)
  from p a a1 c b t bs ts bn tn b1 b2 b3 al al0 show ?thesis by blast
qed

theorem fromWire_single_quote_witness:
  "truthy (getp (Some alertUpsResponse) ''RateResponse'') \<and>
   truthy (getp (getp (Some alertUpsResponse) ''RateResponse'') ''RatedShipment'') \<and>
   convertible (getp (getp (getp (getp (Some alertUpsResponse) ''RateResponse'')
      ''RatedShipment'') ''TotalCharges'') ''MonetaryValue'') \<and>
   convertible (getp (getp (first_if_array (getp (getp (getp (Some alertUpsResponse)
      ''RateResponse'') ''RatedShipment'') ''RatedPackage'')) ''BaseServiceCharge'')
      ''MonetaryValue'') \<and>
   convertible (getp (getp (first_if_array (getp (getp (getp (Some alertUpsResponse)
      ''RateResponse'') ''RatedShipment'') ''RatedPackage'')) ''TransportationCharges'')
      ''MonetaryValue'') \<and>
   JNull \<notin> set (alert_list (getp (getp (getp (Some alertUpsResponse) ''RateResponse'')
      ''RatedShipment'') ''RatedShipmentAlert'')) \<and>
   JNull \<notin> set (alert_list (getp (getp (getp (Some alertUpsResponse) ''RateResponse'')
      ''Response'') ''Alert'')) \<and>
   parseUpsResponse (Some alertUpsResponse) =
     Inr [\<lparr>carrier = ''UPS'', serviceCode = Some (JStr []), serviceName = None,
           amount = Num 0, currency = Some (JStr ''USD''),
           baseCharge = Some (Num (1446 / 100)), transportationCharge = None,
           alerts = Some [JStr ''Address is residential'', JStr ''Rates may vary'']\<rparr>]"
  using fromWire_single_quote[of "Some alertUpsResponse"]
  by (simp add: alertUpsResponse_def parseUpsResponse_def alert_list_def or_else_def
      first_if_array_def charge_def parseFloat_arg_def parseFloat_value_def convertible_def
      parse_defs)

text \<open>
  Claim C9 as stated fails: a reply whose monetary value is the string
  \<^verbatim>\<open>-5.00\<close> yields a quote whose amount is the negative number -5.
\<close>

theorem fromWire_negative_amount_counterexample:
  "parseUpsResponse (Some negativeChargeResponse) =
     Inr [\<lparr>carrier = ''UPS'', serviceCode = Some (JStr []), serviceName = None,
           amount = Num (- 5), currency = Some (JStr ''USD''),
           baseCharge = None, transportationCharge = None, alerts = None\<rparr>] \<and>
   \<not> nonneg_real (Num (- 5))"
  by (simp add: negativeChargeResponse_def parseUpsResponse_def alert_list_def or_else_def
      first_if_array_def charge_def parseFloat_arg_def parseFloat_value_def parse_defs
      nonneg_real_def)

text \<open>
  A monetary value that starts with a digit may still be read as no real
  number: \<^verbatim>\<open>1e309\<close> is beyond the range of doubles and the amount is \<^verbatim>\<open>Infinity\<close>.
\<close>

lemma parseUpsResponse_overflow_amount:
  "parseUpsResponse (Some overflowChargeResponse) =
     Inr [\<lparr>carrier = ''UPS'', serviceCode = Some (JStr []), serviceName = None,
           amount = PosInf, currency = Some (JStr ''USD''),
           baseCharge = None, transportationCharge = None, alerts = None\<rparr>]"
  by (simp add: overflowChargeResponse_def parseUpsResponse_def alert_list_def or_else_def
      first_if_array_def charge_def parseFloat_arg_def parseFloat_value_def parseFloat_overflow)

lemma parseUpsResponse_amount_currency:
  assumes p: "parseUpsResponse resp = Inr qs" and q: "q \<in> set qs"
    and mv: "mv = getp (getp (getp (getp resp ''RateResponse'') ''RatedShipment'')
      ''TotalCharges'') ''MonetaryValue''"
  shows "amount q = (if truthy mv then parsed_arg mv else Num 0)"
    and "currency q = or_else (getp (getp (getp (getp resp ''RateResponse'')
      ''RatedShipment'') ''TotalCharges'') ''CurrencyCode'') (Some (JStr ''USD''))"
proof -
  note ok = parseUpsResponse_ok[OF refl refl parseUpsResponse_Inr[OF p refl refl]]
  from p q ok have qeq: "qs = [q]" by auto
  with p ok show "amount q = (if truthy mv then parsed_arg mv else Num 0)"
    unfolding mv by auto
  from qeq p ok show "currency q = or_else (getp (getp (getp (getp resp ''RateResponse'')
      ''RatedShipment'') ''TotalCharges'') ''CurrencyCode'') (Some (JStr ''USD''))"
    by auto
qed

text \<open>
  Claim C9, amended. Every quote \<^verbatim>\<open>parseUpsResponse\<close> returns has a currency
  (a truthy value) and an amount. The amount is what \<^verbatim>\<open>parseFloat\<close> reads from
  the reply's monetary value (for a non-empty string, \<^verbatim>\<open>parseFloat\<close> of that
  string), and 0 when that value is absent (falsy); it is a non-negative real
  when the value is absent, and a non-negative real or \<^verbatim>\<open>Infinity\<close> when the
  value is a string that starts with a decimal digit.
\<close>

theorem fromWire_amount_and_currency:
  fixes resp :: "json option"
  defines "mv \<equiv> getp (getp (getp (getp resp ''RateResponse'') ''RatedShipment'') ''TotalCharges'')
      ''MonetaryValue''"
  assumes p: "parseUpsResponse resp = Inr qs" and q: "q \<in> set qs"
  shows "currency q \<noteq> None \<and> truthy (currency q) \<and>
    amount q = (if truthy mv then parsed_arg mv else Num 0) \<and>
    (\<forall>s. mv = Some (JStr s) \<and> s \<noteq> [] \<longrightarrow> amount q = parseFloat s) \<and>
    (\<not> truthy mv \<longrightarrow> amount q = Num 0 \<and> nonneg_real (amount q)) \<and>
    (\<forall>c s. mv = Some (JStr (c # s)) \<and> is_digit c \<longrightarrow>
       nonneg_real (amount q) \<or> amount q = PosInf)"
proof -
  have a: "amount q = (if truthy mv then parsed_arg mv else Num 0)"
    by (rule parseUpsResponse_amount_currency(1)[OF p q]) (simp add: mv_def)
  have cu: "truthy (currency q)"
    by (simp add: parseUpsResponse_amount_currency(2)[OF p q refl] or_else_def)
  then have cn: "currency q \<noteq> None" by (cases "currency q") simp_all
  from a have a1: "\<forall>s. mv = Some (JStr s) \<and> s \<noteq> [] \<longrightarrow> amount q = parseFloat s"
    by (simp add: parsed_arg_def)
  from a have b: "\<not> truthy mv \<longrightarrow> amount q = Num 0 \<and> nonneg_real (amount q)"
    by (simp add: nonneg_real_def)
  have c: "\<forall>c s. mv = Some (JStr (c # s)) \<and> is_digit c \<longrightarrow>
      nonneg_real (amount q) \<or> amount q = PosInf"
  proof (intro allI impI)
    fix c s assume h: "mv = Some (JStr (c # s)) \<and> is_digit c"
    with a have "amount q = parseFloat (c # s)" by (simp add: parsed_arg_def)
    with parseFloat_digit[of c s] h show "nonneg_real (amount q) \<or> amount q = PosInf"
      by (auto simp: nonneg_real_def)
  qed
  from cn cu a a1 b c show ?thesis by blast
qed

theorem fromWire_amount_and_currency_witness:
  "parseUpsResponse (Some validUpsResponse) =
     Inr [\<lparr>carrier = ''UPS'', serviceCode = Some (JStr ''03''),
           serviceName = Some (JStr ''Ground''), amount = Num (1554 / 100),
           currency = Some (JStr ''USD''), baseCharge = Some (Num (1446 / 100)),
           transportationCharge = Some (Num (1554 / 100)), alerts = None\<rparr>] \<and>
   is_digit CHR ''1'' \<and>
   nonneg_real (Num (1554 / 100))"
  using fromWire_amount_and_currency[of "Some validUpsResponse"
      "[\<lparr>carrier = ''UPS'', serviceCode = Some (JStr ''03''),
           serviceName = Some (JStr ''Ground''), amount = Num (1554 / 100),
           currency = Some (JStr ''USD''), baseCharge = Some (Num (1446 / 100)),
           transportationCharge = Some (Num (1554 / 100)), alerts = None\<rparr>]"
      "\<lparr>carrier = ''UPS'', serviceCode = Some (JStr ''03''),
           serviceName = Some (JStr ''Ground''), amount = Num (1554 / 100),
           currency = Some (JStr ''USD''), baseCharge = Some (Num (1446 / 100)),
           transportationCharge = Some (Num (1554 / 100)), alerts = None\<rparr>"]
  by (simp add: validUpsResponse_def parseUpsResponse_def alert_list_def or_else_def
      first_if_array_def charge_def parseFloat_arg_def parseFloat_value_def parse_defs
      nonneg_real_def parsed_arg_def)

section \<open>Properties of the rate operation\<close>

lemmas chain_defs = status_of_def data_of_def headers_of_def status_between_def status_number_def
  message_includes_def no_http_status_def is_timeout_def is_network_def is_json_failure_def
  is_missing_field_def looks_classified_def










lemma classify_rethrow:
  "no_http_status e \<Longrightarrow> \<not> is_timeout e \<Longrightarrow> message e = Some msg \<Longrightarrow> \<not> is_network e \<Longrightarrow>
   \<not> is_json_failure e \<Longrightarrow> \<not> is_missing_field e \<Longrightarrow> looks_classified e \<Longrightarrow>
   classify e = Raw e"
  by (simp add: classify_def no_http_status_def is_timeout_def message_includes_def is_network_def
      is_json_failure_def is_missing_field_def looks_classified_def)

lemma classify_catch_all:
  "no_http_status e \<Longrightarrow> \<not> is_timeout e \<Longrightarrow> message e = Some msg \<Longrightarrow> \<not> is_network e \<Longrightarrow>
   \<not> is_json_failure e \<Longrightarrow> \<not> is_missing_field e \<Longrightarrow> \<not> looks_classified e \<Longrightarrow>
   \<exists>d. classify e = Classified (HttpServerError 500 ''Unknown error calling UPS API'' True d)"
  by (simp add: classify_def no_http_status_def is_timeout_def message_includes_def is_network_def
      is_json_failure_def is_missing_field_def looks_classified_def)






lemma classify_Raw_iff: "classify e = Raw e \<longleftrightarrow> reaches_rethrow e"
proof
  assume "reaches_rethrow e"
  then show "classify e = Raw e"
    using classify_rethrow[of e] by (auto simp: reaches_rethrow_def)
next
  assume r: "classify e = Raw e"
  have st: "no_http_status e"
  proof (rule ccontr)
    assume n: "\<not> no_http_status e"
    then obtain resp where resp: "response e = Some resp"
      by (cases "response e") (auto simp: no_http_status_def status_between_def status_of_def)
    have "classify e \<noteq> Raw e"
    proof (cases "status_of e = Some 401 \<or> status_of e = Some 400")
      case True
      then show ?thesis by (auto simp: classify_def)
    next
      case False
      show ?thesis
      proof (cases "status_of e = Some 429")
        case True
        with resp show ?thesis
          by (cases "headers_of e") (auto simp: classify_def js_TypeError_def)
      next
        case False
        with \<open>\<not> (status_of e = Some 401 \<or> status_of e = Some 400)\<close> n
        have "status_between e 400 (Some 500) \<or> status_between e 500 None"
          by (simp add: no_http_status_def)
        with False \<open>\<not> (status_of e = Some 401 \<or> status_of e = Some 400)\<close>
        show ?thesis by (auto simp: classify_def)
      qed
    qed
    with r show False by simp
  qed
  from st have st': "status_of e \<noteq> Some 401" "status_of e \<noteq> Some 400" "status_of e \<noteq> Some 429"
    "\<not> status_between e 400 (Some 500)" "\<not> status_between e 500 None"
    by (simp_all add: no_http_status_def)
  have ab: "code e \<noteq> Some ''ECONNABORTED''"
    using r st' by (auto simp: classify_def)
  obtain msg where msg: "message e = Some msg"
    using r st' ab by (cases "message e") (auto simp: classify_def js_TypeError_def)
  have rest: "\<not> str_includes msg ''timeout'' \<and> \<not> is_network e \<and> \<not> is_json_failure e \<and>
      \<not> is_missing_field e \<and> looks_classified e"
    using r st' ab msg
    by (simp add: classify_def is_network_def is_json_failure_def is_missing_field_def
        looks_classified_def message_includes_def split: if_splits)
  with st ab msg show "reaches_rethrow e"
    by (simp add: reaches_rethrow_def is_timeout_def message_includes_def)
qed

text \<open>
  Claim C4 as stated fails: when the token fetch fails with
  \<^verbatim>\<open>new Error("Network error")\<close> (the failure of the test suite), \<^verbatim>\<open>execute\<close>
  does not throw that error but an \<^verbatim>\<open>HttpServerError(500)\<close>.
\<close>

theorem token_failure_counterexample:
  "execute (Inl (js_Error ''Network error'')) (\<lambda>url payload hdrs. Inr None)
      ''https://wwwcie.ups.com'' ''A1B2C3'' String_whole
      ''1b4e28ba-2fa1-41d2-883f-0016d3cca427'' ''1700000000000-k3j9x0q2a'' sample_request =
     Inl (Classified (HttpServerError 500 ''Unknown error calling UPS API'' True
            [(''originalError'', DText (Some ''Network error''))])) \<and>
   execute (Inl (js_Error ''Network error'')) (\<lambda>url payload hdrs. Inr None)
      ''https://wwwcie.ups.com'' ''A1B2C3'' String_whole
      ''1b4e28ba-2fa1-41d2-883f-0016d3cca427'' ''1700000000000-k3j9x0q2a'' sample_request \<noteq>
     Inl (Raw (js_Error ''Network error''))"
  by (simp add: execute_def classify_def js_Error_def chain_defs)

text \<open>
  Claim C4, amended. The token is awaited inside the \<^verbatim>\<open>try\<close> (line 51), so a
  failed token fetch is caught like every other failure and \<^verbatim>\<open>execute\<close> throws
  what the catch block makes of it, whatever the transport would do. The
  failure leaves \<^verbatim>\<open>execute\<close> unmodified exactly when it gets as far as the
  re-throw of line 147 and passes its test; a failure with a message that
  matches no rule and does not pass that test is thrown as
  \<^verbatim>\<open>HttpServerError(500, retryable)\<close>.
\<close>

theorem token_failure_is_classified:
  "execute (Inl error) post baseUrl shipperNumber String uuid transID request =
     Inl (classify error) \<and>
   (execute (Inl error) post baseUrl shipperNumber String uuid transID request = Inl (Raw error)
      \<longleftrightarrow> reaches_rethrow error) \<and>
   (no_http_status error \<and> \<not> is_timeout error \<and> message error = Some msg \<and> \<not> is_network error \<and>
    \<not> is_json_failure error \<and> \<not> is_missing_field error \<and> \<not> looks_classified error \<longrightarrow>
      (\<exists>d. execute (Inl error) post baseUrl shipperNumber String uuid transID request =
         Inl (Classified (HttpServerError 500 ''Unknown error calling UPS API'' True d))))"
proof (intro conjI impI)
  show a: "execute (Inl error) post baseUrl shipperNumber String uuid transID request =
     Inl (classify error)"
    by (simp add: execute_def)
  show "execute (Inl error) post baseUrl shipperNumber String uuid transID request = Inl (Raw error)
      \<longleftrightarrow> reaches_rethrow error"
    by (simp add: a classify_Raw_iff)
  assume "no_http_status error \<and> \<not> is_timeout error \<and> message error = Some msg \<and>
    \<not> is_network error \<and> \<not> is_json_failure error \<and> \<not> is_missing_field error \<and>
    \<not> looks_classified error"
  then have "\<exists>d. classify error =
      Classified (HttpServerError 500 ''Unknown error calling UPS API'' True d)"
    using classify_catch_all[of error msg] by blast
  then show "\<exists>d. execute (Inl error) post baseUrl shipperNumber String uuid transID request =
         Inl (Classified (HttpServerError 500 ''Unknown error calling UPS API'' True d))"
    by (simp add: a)
qed

theorem token_failure_is_classified_witness:
  "no_http_status (js_Error ''Network error'') \<and> \<not> is_timeout (js_Error ''Network error'') \<and>
   message (js_Error ''Network error'') = Some ''Network error'' \<and>
   \<not> is_network (js_Error ''Network error'') \<and> \<not> is_json_failure (js_Error ''Network error'') \<and>
   \<not> is_missing_field (js_Error ''Network error'') \<and>
   \<not> looks_classified (js_Error ''Network error'') \<and>
   \<not> reaches_rethrow (js_Error ''Network error'') \<and>
   execute (Inl (js_Error ''Network error'')) (\<lambda>url payload hdrs. Inr None)
      ''https://wwwcie.ups.com'' ''A1B2C3'' String_whole
      ''1b4e28ba-2fa1-41d2-883f-0016d3cca427'' ''1700000000000-k3j9x0q2a'' sample_request =
     Inl (Classified (HttpServerError 500 ''Unknown error calling UPS API'' True
            [(''originalError'', DText (Some ''Network error''))]))"
  using token_failure_is_classified[of "js_Error ''Network error''" "\<lambda>url payload hdrs. Inr None"
      "''https://wwwcie.ups.com''" "''A1B2C3''" String_whole
      "''1b4e28ba-2fa1-41d2-883f-0016d3cca427''" "''1700000000000-k3j9x0q2a''" sample_request
      "''Network error''"]
  by (simp add: classify_def js_Error_def chain_defs reaches_rethrow_def)

lemma execute_missing_field:
  assumes "\<not> truthy (getp body ''RateResponse'') \<or>
           \<not> truthy (getp (getp body ''RateResponse'') ''RatedShipment'')"
    and "post (baseUrl @ ''/api/rating/v2403/rate'')
           (mapToUpsRequest String uuid request shipperNumber)
           [(''Authorization'', ''Bearer '' @ tok), (''Content-Type'', ''application/json''),
            (''transID'', transID), (''transactionSrc'', ''RatingService'')] = Inr body"
  shows "\<exists>d. execute (Inr tok) post baseUrl shipperNumber String uuid transID request =
     Inl (Classified (MalformedResponseError ''UPS API response missing required fields'' None d))"
proof -
  have "parseUpsResponse body = Inl (js_Error ''Invalid UPS response: missing RateResponse'') \<or>
        parseUpsResponse body = Inl (js_Error ''Invalid UPS response: missing RatedShipment'')"
    using assms(1) parseUpsResponse_missing[of body] by blast
  moreover have "\<exists>d. classify (js_Error ''Invalid UPS response: missing RateResponse'') =
      Classified (MalformedResponseError ''UPS API response missing required fields'' None d)"
    by (simp add: classify_def js_Error_def chain_defs)
  moreover have "\<exists>d. classify (js_Error ''Invalid UPS response: missing RatedShipment'') =
      Classified (MalformedResponseError ''UPS API response missing required fields'' None d)"
    by (simp add: classify_def js_Error_def chain_defs)
  ultimately show ?thesis
    using assms(2) by (auto simp: execute_def)
qed

text \<open>
  Claim C6 (the raw body of a reply without envelope). The transport resolves
  with a body that has no \<^verbatim>\<open>RateResponse\<close>; \<^verbatim>\<open>parseUpsResponse\<close> throws its
  missing-field error, line 139 matches and line 142 computes the payload as
  \<^verbatim>\<open>JSON.stringify(error.response?.data)\<close> from the caught error. That error
  is the one \<^verbatim>\<open>parseUpsResponse\<close> made and has no \<^verbatim>\<open>response\<close>, so the
  \<^verbatim>\<open>MalformedResponseError\<close> thrown carries no raw response at all.
\<close>

theorem missing_envelope_drops_raw_body:
  "execute (Inr tok) (\<lambda>url payload hdrs. Inr (Some (JObj [(''message'', JStr ''no rates'')])))
      baseUrl shipperNumber String uuid transID request =
     Inl (Classified (MalformedResponseError ''UPS API response missing required fields'' None
            [(''originalError'', DText (Some ''Invalid UPS response: missing RateResponse''))]))"
  by (simp add: execute_def parseUpsResponse_def classify_def js_Error_def chain_defs)

end
